theory Spec2Isabelle
  imports Main "HOL-Library.Word"
begin

unbundle bit_operations_syntax

section \<open>JavaScript \<open>Map\<close>: an insertion-ordered table\<close>

text \<open>
  \<open>SmartAudioCache\<close> keeps its memory tier and its disk index in JavaScript \<open>Map\<close>
  objects. A \<open>Map\<close> iterates in insertion order; \<open>set\<close> on a key that is already present
  replaces the value and keeps the key's position; \<open>set\<close> on a new key appends;
  \<open>delete\<close> removes the key; \<open>keys().next().value\<close> is the first key in insertion order
  (\<open>undefined\<close> when the table is empty, and deleting \<open>undefined\<close> removes nothing).
  The model is an association list in insertion order.
\<close>

type_synonym ('k, 'v) jsmap = "('k \<times> 'v) list"

definition map_get :: "('k, 'v) jsmap \<Rightarrow> 'k \<Rightarrow> 'v option" where
  "map_get m k = map_of m k"

definition map_delete :: "('k, 'v) jsmap \<Rightarrow> 'k \<Rightarrow> ('k, 'v) jsmap" where
  "map_delete m k = filter (\<lambda>p. fst p \<noteq> k) m"

fun map_set :: "('k, 'v) jsmap \<Rightarrow> 'k \<Rightarrow> 'v \<Rightarrow> ('k, 'v) jsmap" where
  "map_set [] k v = [(k, v)]"
| "map_set (p # m) k v = (if fst p = k then (k, v) # m else p # map_set m k v)"

definition map_size :: "('k, 'v) jsmap \<Rightarrow> nat" where
  "map_size m = length m"

definition map_first_key :: "('k, 'v) jsmap \<Rightarrow> 'k option" where
  "map_first_key m = (case m of [] \<Rightarrow> None | p # _ \<Rightarrow> Some (fst p))"

definition map_keys :: "('k, 'v) jsmap \<Rightarrow> 'k list" where
  "map_keys m = map fst m"

section \<open>Key derivation\<close>

text \<open>
  \<open>generateCacheKey\<close> hashes \<open>JSON.stringify({text, voiceId, engine, format})\<close> with MD5
  (\<open>crypto.createHash('md5')\<close>) and returns the lowercase hexadecimal digest. Strings
  are modelled as lists of 8-bit characters; the model follows JavaScript on ASCII text,
  where \<open>trim\<close> removes the characters 9 to 13 and 32 from both ends, \<open>toLowerCase\<close>
  maps \<open>A\<close>..\<open>Z\<close> to \<open>a\<close>..\<open>z\<close>, and the UTF-8 encoding hashed by \<open>update\<close> is
  the string itself.
\<close>

subsection \<open>MD5 (RFC 1321)\<close>

definition md5_K :: "32 word list" where
  "md5_K = [
    0xd76aa478, 0xe8c7b756, 0x242070db, 0xc1bdceee,
    0xf57c0faf, 0x4787c62a, 0xa8304613, 0xfd469501,
    0x698098d8, 0x8b44f7af, 0xffff5bb1, 0x895cd7be,
    0x6b901122, 0xfd987193, 0xa679438e, 0x49b40821,
    0xf61e2562, 0xc040b340, 0x265e5a51, 0xe9b6c7aa,
    0xd62f105d, 0x02441453, 0xd8a1e681, 0xe7d3fbc8,
    0x21e1cde6, 0xc33707d6, 0xf4d50d87, 0x455a14ed,
    0xa9e3e905, 0xfcefa3f8, 0x676f02d9, 0x8d2a4c8a,
    0xfffa3942, 0x8771f681, 0x6d9d6122, 0xfde5380c,
    0xa4beea44, 0x4bdecfa9, 0xf6bb4b60, 0xbebfbc70,
    0x289b7ec6, 0xeaa127fa, 0xd4ef3085, 0x04881d05,
    0xd9d4d039, 0xe6db99e5, 0x1fa27cf8, 0xc4ac5665,
    0xf4292244, 0x432aff97, 0xab9423a7, 0xfc93a039,
    0x655b59c3, 0x8f0ccc92, 0xffeff47d, 0x85845dd1,
    0x6fa87e4f, 0xfe2ce6e0, 0xa3014314, 0x4e0811a1,
    0xf7537e82, 0xbd3af235, 0x2ad7d2bb, 0xeb86d391]"

definition md5_s :: "nat list" where
  "md5_s = [7, 12, 17, 22, 7, 12, 17, 22, 7, 12, 17, 22, 7, 12, 17, 22,
            5, 9, 14, 20, 5, 9, 14, 20, 5, 9, 14, 20, 5, 9, 14, 20,
            4, 11, 16, 23, 4, 11, 16, 23, 4, 11, 16, 23, 4, 11, 16, 23,
            6, 10, 15, 21, 6, 10, 15, 21, 6, 10, 15, 21, 6, 10, 15, 21]"

type_synonym md5_state = "32 word \<times> 32 word \<times> 32 word \<times> 32 word"

text \<open>Operation \<open>i\<close> (0 to 63) of the compression function on the sixteen message words \<open>M\<close>.\<close>

definition md5_step :: "32 word list \<Rightarrow> md5_state \<Rightarrow> nat \<Rightarrow> md5_state" where
  "md5_step M st i =
     (case st of (a, b, c, d) \<Rightarrow>
        let f = (if i < 16 then (b AND c) OR (NOT b AND d)
                 else if i < 32 then (d AND b) OR (NOT d AND c)
                 else if i < 48 then b XOR c XOR d
                 else c XOR (b OR NOT d));
            g = (if i < 16 then i
                 else if i < 32 then (5 * i + 1) mod 16
                 else if i < 48 then (3 * i + 5) mod 16
                 else (7 * i) mod 16);
            f' = f + a + md5_K ! i + M ! g
        in (d, b + word_rotl (md5_s ! i) f', b, c))"

definition le_word :: "8 word list \<Rightarrow> 32 word" where
  "le_word bs = foldr (\<lambda>b w. ucast b OR push_bit 8 w) bs 0"

primrec words_of :: "nat \<Rightarrow> 8 word list \<Rightarrow> 32 word list" where
  "words_of 0 bs = []"
| "words_of (Suc n) bs = le_word (take 4 bs) # words_of n (drop 4 bs)"

definition md5_block :: "md5_state \<Rightarrow> 8 word list \<Rightarrow> md5_state" where
  "md5_block st block =
     (case st of (a0, b0, c0, d0) \<Rightarrow>
        case foldl (md5_step (words_of 16 block)) st [0..<64] of (a, b, c, d) \<Rightarrow>
          (a0 + a, b0 + b, c0 + c, d0 + d))"

primrec md5_blocks :: "nat \<Rightarrow> md5_state \<Rightarrow> 8 word list \<Rightarrow> md5_state" where
  "md5_blocks 0 st bs = st"
| "md5_blocks (Suc n) st bs = md5_blocks n (md5_block st (take 64 bs)) (drop 64 bs)"

text \<open>The first \<open>n\<close> bytes of a word, least significant first.\<close>

definition le_bytes :: "nat \<Rightarrow> 'a::len word \<Rightarrow> 8 word list" where
  "le_bytes n v = map (\<lambda>i. ucast (drop_bit (8 * i) v)) [0..<n]"

text \<open>Padding: the byte \<open>0x80\<close>, zeros up to 56 modulo 64, then the bit length of the
  message as a 64-bit little-endian number.\<close>

definition md5_pad :: "8 word list \<Rightarrow> 8 word list" where
  "md5_pad msg =
     msg @ [0x80] @ replicate ((119 - length msg mod 64) mod 64) 0
         @ le_bytes 8 (word_of_nat (8 * length msg) :: 64 word)"

definition md5_digest :: "8 word list \<Rightarrow> 8 word list" where
  "md5_digest msg =
     (case md5_blocks (length (md5_pad msg) div 64)
             (0x67452301, 0xefcdab89, 0x98badcfe, 0x10325476) (md5_pad msg)
      of (a, b, c, d) \<Rightarrow> concat (map (le_bytes 4) [a, b, c, d]))"

definition hex_digit :: "nat \<Rightarrow> char" where
  "hex_digit n = ''0123456789abcdef'' ! (n mod 16)"

definition hex_byte :: "8 word \<Rightarrow> string" where
  "hex_byte b = [hex_digit (unat b div 16), hex_digit (unat b)]"

text \<open>\<open>crypto.createHash('md5').update(data).digest('hex')\<close>.\<close>

definition md5_hex :: "string \<Rightarrow> string" where
  "md5_hex s = concat (map hex_byte (md5_digest (map (\<lambda>ch. word_of_nat (of_char ch)) s)))"

subsection \<open>Normalisation and serialisation\<close>

definition isWhiteSpace :: "char \<Rightarrow> bool" where
  "isWhiteSpace ch = ((of_char ch :: nat) \<in> {9, 10, 11, 12, 13, 32})"

definition trim :: "string \<Rightarrow> string" where
  "trim s = rev (dropWhile isWhiteSpace (rev (dropWhile isWhiteSpace s)))"

definition toLowerCase :: "string \<Rightarrow> string" where
  "toLowerCase s =
     map (\<lambda>ch. if 65 \<le> (of_char ch :: nat) \<and> (of_char ch :: nat) \<le> 90
               then char_of ((of_char ch :: nat) + 32) else ch) s"

text \<open>\<open>JSON.stringify\<close> of a string: the quotation mark and the backslash are escaped
  with a backslash; backspace, tab, line feed, form feed and carriage return get their
  two-character escapes; every other character below 32 is written as a backslash, \<open>u00\<close>
  and two hexadecimal digits.\<close>

definition json_escape :: "char \<Rightarrow> string" where
  "json_escape ch =
     (let n = (of_char ch :: nat) in
      if n = 8 then [CHR 0x5C, CHR ''b'']
      else if n = 9 then [CHR 0x5C, CHR ''t'']
      else if n = 10 then [CHR 0x5C, CHR ''n'']
      else if n = 12 then [CHR 0x5C, CHR ''f'']
      else if n = 13 then [CHR 0x5C, CHR ''r'']
      else if n = 34 then [CHR 0x5C, CHR 0x22]
      else if n = 92 then [CHR 0x5C, CHR 0x5C]
      else if n < 32 then [CHR 0x5C, CHR ''u'', CHR ''0'', CHR ''0'', hex_digit (n div 16), hex_digit n]
      else [ch])"

definition json_string :: "string \<Rightarrow> string" where
  "json_string s = [CHR 0x22] @ concat (map json_escape s) @ [CHR 0x22]"

text \<open>The \<open>options\<close> argument: a property that is absent is \<open>None\<close>.\<close>

record options =
  engine :: "string option"
  format :: "string option"

text \<open>\<open>v || d\<close> on a string property: \<open>undefined\<close> and the empty string are falsy.\<close>

definition or_default :: "string option \<Rightarrow> string \<Rightarrow> string" where
  "or_default v d = (case v of None \<Rightarrow> d | Some s \<Rightarrow> if s = [] then d else s)"

text \<open>The text \<open>generateCacheKey\<close> hashes, its constant \<open>data\<close>: the object with the
  properties \<open>text\<close>, \<open>voiceId\<close>, \<open>engine\<close>, \<open>format\<close>, in this order.\<close>

definition cacheKeyData :: "string \<Rightarrow> string \<Rightarrow> options \<Rightarrow> string" where
  "cacheKeyData text voiceId opts =
     ''{'' @ json_string ''text'' @ '':'' @ json_string (toLowerCase (trim text))
       @ '','' @ json_string ''voiceId'' @ '':'' @ json_string voiceId
       @ '','' @ json_string ''engine'' @ '':'' @ json_string (or_default (engine opts) ''neural'')
       @ '','' @ json_string ''format'' @ '':'' @ json_string (or_default (format opts) ''mp3'')
       @ ''}''"

definition generateCacheKey :: "string \<Rightarrow> string \<Rightarrow> options \<Rightarrow> string" where
  "generateCacheKey text voiceId opts = md5_hex (cacheKeyData text voiceId opts)"

section \<open>The cache object\<close>

type_synonym cacheKey = string
type_synonym buffer = "nat list"

text \<open>A memory-tier entry, \<open>{ data, timestamp }\<close>; timestamps are \<open>Date.now()\<close> values
  (milliseconds since the epoch).\<close>

record memEntry =
  data :: buffer
  timestamp :: int

text \<open>The fields of a \<open>SmartAudioCache\<close> instance. \<open>stats\<close> is flattened into its five
  counters.\<close>

record cache =
  memoryCache :: "(cacheKey, memEntry) jsmap"
  diskCache :: "(cacheKey, int) jsmap"
  s3Cache :: bool
  maxMemoryCache :: nat
  maxDiskCache :: nat
  cacheExpiry :: int
  memoryHits :: nat
  diskHits :: nat
  s3Hits :: nat
  misses :: nat
  totalRequests :: nat

text \<open>The state the constructor builds (before \<open>loadDiskCacheIndex\<close> runs).\<close>

definition newCache :: cache where
  "newCache = \<lparr> memoryCache = [], diskCache = [], s3Cache = True,
       maxMemoryCache = 50, maxDiskCache = 200, cacheExpiry = 24 * 60 * 60 * 1000,
       memoryHits = 0, diskHits = 0, s3Hits = 0, misses = 0, totalRequests = 0 \<rparr>"

section \<open>Memory tier\<close>

text \<open>\<open>checkMemoryCache(cacheKey)\<close>; \<open>now\<close> is the value \<open>Date.now()\<close> returns in the
  call. The result is the buffer, or \<open>None\<close> for JavaScript's \<open>null\<close>.\<close>

definition checkMemoryCache :: "cacheKey \<Rightarrow> int \<Rightarrow> cache \<Rightarrow> buffer option \<times> cache" where
  "checkMemoryCache k now c =
     (case map_get (memoryCache c) k of
        None \<Rightarrow> (None, c)
      | Some cached \<Rightarrow>
          if now - timestamp cached < cacheExpiry c then (Some (data cached), c)
          else (None, c\<lparr>memoryCache := map_delete (memoryCache c) k\<rparr>))"

text \<open>\<open>storeInMemoryCache(cacheKey, audioBuffer)\<close>.\<close>

definition storeInMemoryCache :: "cacheKey \<Rightarrow> buffer \<Rightarrow> int \<Rightarrow> cache \<Rightarrow> cache" where
  "storeInMemoryCache k buf now c =
     (let m = (if map_size (memoryCache c) \<ge> maxMemoryCache c
               then (case map_first_key (memoryCache c) of
                       None \<Rightarrow> memoryCache c
                     | Some firstKey \<Rightarrow> map_delete (memoryCache c) firstKey)
               else memoryCache c)
      in c\<lparr>memoryCache := map_set m k \<lparr>data = buf, timestamp = now\<rparr>\<rparr>)"

text \<open>A run of puts: each element is the key, the buffer and the time of the call.\<close>

fun storeAll :: "(cacheKey \<times> buffer \<times> int) list \<Rightarrow> cache \<Rightarrow> cache" where
  "storeAll [] c = c"
| "storeAll ((k, b, t) # ps) c = storeAll ps (storeInMemoryCache k b t c)"

section \<open>The environment\<close>

text \<open>
  What the cache reaches outside itself: the clock (\<open>Date.now()\<close>), \<open>process.env\<close>, the
  files under \<open>diskCachePath\<close>, the S3 client and the Polly client. A file \<open>K.mp3\<close> or
  \<open>K.meta\<close> is addressed by its key \<open>K\<close>. A metadata file holds either the object the
  cache wrote, \<open>{timestamp, size, cacheKey}\<close>, or text that \<open>JSON.parse\<close> rejects.
  \<open>fsReadFault\<close> makes \<open>readFileSync\<close> throw, \<open>fsWriteFault\<close> makes \<open>writeFileSync\<close> and
  \<open>unlinkSync\<close> throw. \<open>s3Head\<close> and \<open>s3Get\<close> answer a \<open>HeadObjectCommand\<close> and a
  \<open>GetObjectCommand\<close> (reading the body included) for a bucket and an object key: the
  name of the error thrown, or \<open>LastModified\<close> in epoch milliseconds and the body;
  \<open>s3Put\<close> answers a \<open>PutObjectCommand\<close>: the name of the error thrown, if any.
  \<open>pollySynthesize\<close> answers a \<open>SynthesizeSpeechCommand\<close> for text, voice, output format
  and engine: the error message, or the audio. \<open>s3Log\<close>, \<open>pollyLog\<close> and \<open>snsLog\<close> record the
  requests sent, in order. \<open>pollyFallbackOk\<close> tells whether the test request of
  \<open>pollyFailover\<close> to the fallback region succeeds. The clock stands still while one
  operation runs; an operation made later is given a later time.
\<close>

datatype metaFile = Meta int nat string | Garbage

datatype s3req = HeadObject string string | GetObject string string | PutObject string string buffer

datatype error = PollyError string | S3Error string | FsError | JsonError

record world =
  clock :: int
  env :: "string \<Rightarrow> string option"
  mp3Files :: "cacheKey \<Rightarrow> buffer option"
  metaFiles :: "cacheKey \<Rightarrow> metaFile option"
  fsReadFault :: bool
  fsWriteFault :: bool
  s3Head :: "string \<Rightarrow> string \<Rightarrow> string + int"
  s3Get :: "string \<Rightarrow> string \<Rightarrow> string + buffer"
  s3Put :: "string \<Rightarrow> string \<Rightarrow> buffer \<Rightarrow> string option"
  s3Log :: "s3req list"
  pollySynthesize :: "string \<Rightarrow> string \<Rightarrow> string \<Rightarrow> string \<Rightarrow> string + buffer"
  pollyLog :: "(string \<times> string) list"
  pollyFallbackOk :: bool
  snsLog :: "string list"

section \<open>Disk tier\<close>

text \<open>\<open>checkDiskCache(cacheKey)\<close>. The body of the \<open>try\<close> block: \<open>Inl\<close> is the exception it
  throws.\<close>

definition checkDiskCache_try :: "cacheKey \<Rightarrow> cache \<Rightarrow> world \<Rightarrow> error + (buffer option \<times> world)" where
  "checkDiskCache_try k c w =
     (case (mp3Files w k, metaFiles w k) of
        (Some fileData, Some metaData) \<Rightarrow>
          if fsReadFault w then Inl FsError
          else (case metaData of
                  Garbage \<Rightarrow> Inl JsonError
                | Meta ts sz mk \<Rightarrow>
                    if clock w - ts > cacheExpiry c then
                      (if fsWriteFault w then Inl FsError
                       else Inr (None, w\<lparr>mp3Files := (mp3Files w)(k := None),
                                         metaFiles := (metaFiles w)(k := None)\<rparr>))
                    else Inr (Some fileData, w))
      | _ \<Rightarrow> Inr (None, w))"

text \<open>The \<open>catch\<close> logs the error and returns \<open>null\<close>.\<close>

definition checkDiskCache :: "cacheKey \<Rightarrow> cache \<Rightarrow> world \<Rightarrow> buffer option \<times> world" where
  "checkDiskCache k c w =
     (case checkDiskCache_try k c w of Inl e \<Rightarrow> (None, w) | Inr r \<Rightarrow> r)"

text \<open>\<open>removeDiskCacheEntry(cacheKey)\<close>. The argument is \<open>None\<close> when the caller passes
  \<open>undefined\<close>: the paths are then built from the text \<open>undefined\<close>, and
  \<open>diskCache.delete(undefined)\<close> removes nothing. An \<open>unlinkSync\<close> that throws leaves the
  files and the index as they were; the \<open>catch\<close> logs.\<close>

definition removeDiskCacheEntry :: "cacheKey option \<Rightarrow> cache \<times> world \<Rightarrow> cache \<times> world" where
  "removeDiskCacheEntry ko cw =
     (let c = fst cw; w = snd cw;
          p = (case ko of None \<Rightarrow> ''undefined'' | Some k \<Rightarrow> k)
      in if (mp3Files w p \<noteq> None \<or> metaFiles w p \<noteq> None) \<and> fsWriteFault w then cw
         else (c\<lparr>diskCache := (case ko of None \<Rightarrow> diskCache c
                                 | Some k \<Rightarrow> map_delete (diskCache c) k)\<rparr>,
               w\<lparr>mp3Files := (mp3Files w)(p := None),
                 metaFiles := (metaFiles w)(p := None)\<rparr>))"

text \<open>\<open>storeToDiskCache(cacheKey, audioBuffer)\<close>. When \<open>writeFileSync\<close> throws, the
  \<open>catch\<close> logs and the call returns normally.\<close>

definition storeToDiskCache :: "cacheKey \<Rightarrow> buffer \<Rightarrow> cache \<times> world \<Rightarrow> cache \<times> world" where
  "storeToDiskCache k buf cw =
     (let cw1 = (if map_size (diskCache (fst cw)) \<ge> maxDiskCache (fst cw)
                 then removeDiskCacheEntry (map_first_key (diskCache (fst cw))) cw
                 else cw);
          c1 = fst cw1; w1 = snd cw1
      in if fsWriteFault w1 then cw1
         else (c1\<lparr>diskCache := map_set (diskCache c1) k (clock w1)\<rparr>,
               w1\<lparr>mp3Files := (mp3Files w1)(k \<mapsto> buf),
                  metaFiles := (metaFiles w1)(k \<mapsto> Meta (clock w1) (length buf) k)\<rparr>))"

section \<open>Remote tier\<close>

definition bucketName :: "world \<Rightarrow> string" where
  "bucketName w = or_default (env w ''AUDIO_CACHE_BUCKET'') ''safety-alert-audio-cache''"

definition s3ObjectKey :: "cacheKey \<Rightarrow> string" where
  "s3ObjectKey k = ''audio-cache/'' @ k @ ''.mp3''"

text \<open>\<open>checkS3Cache(cacheKey)\<close>. The body of the \<open>try\<close> block, with the requests it has
  sent when it returns or throws.\<close>

definition checkS3Cache_try :: "cacheKey \<Rightarrow> cache \<Rightarrow> world \<Rightarrow> (error + buffer option) \<times> world" where
  "checkS3Cache_try k c w =
     (let w1 = w\<lparr>s3Log := s3Log w @ [HeadObject (bucketName w) (s3ObjectKey k)]\<rparr>
      in case s3Head w (bucketName w) (s3ObjectKey k) of
           Inl name \<Rightarrow> (Inl (S3Error name), w1)
         | Inr lastModified \<Rightarrow>
             if clock w - lastModified > cacheExpiry c then (Inr None, w1)
             else (let w2 = w1\<lparr>s3Log := s3Log w1 @ [GetObject (bucketName w) (s3ObjectKey k)]\<rparr>
                   in case s3Get w (bucketName w) (s3ObjectKey k) of
                        Inl name \<Rightarrow> (Inl (S3Error name), w2)
                      | Inr body \<Rightarrow> (Inr (Some body), w2)))"

text \<open>The \<open>catch\<close>: \<open>NoSuchKey\<close> and \<open>NotFound\<close> return \<open>null\<close>; any other error is logged
  and returns \<open>null\<close> as well.\<close>

definition checkS3Cache :: "cacheKey \<Rightarrow> cache \<Rightarrow> world \<Rightarrow> buffer option \<times> world" where
  "checkS3Cache k c w =
     (case checkS3Cache_try k c w of
        (Inl (S3Error name), w') \<Rightarrow>
          if name = ''NoSuchKey'' \<or> name = ''NotFound'' then (None, w') else (None, w')
      | (Inl e, w') \<Rightarrow> (None, w')
      | (Inr r, w') \<Rightarrow> (r, w'))"

text \<open>\<open>storeToS3Cache(cacheKey, audioBuffer)\<close> sends a \<open>PutObjectCommand\<close>. The body of the
  \<open>try\<close> block, then the function: the \<open>catch\<close> logs the error and the function
  returns normally.\<close>

definition storeToS3Cache_try :: "cacheKey \<Rightarrow> buffer \<Rightarrow> world \<Rightarrow> (error + unit) \<times> world" where
  "storeToS3Cache_try k buf w =
     (let w1 = w\<lparr>s3Log := s3Log w @ [PutObject (bucketName w) (s3ObjectKey k) buf]\<rparr>
      in case s3Put w (bucketName w) (s3ObjectKey k) buf of
           Some name \<Rightarrow> (Inl (S3Error name), w1)
         | None \<Rightarrow> (Inr (), w1))"

definition storeToS3Cache :: "cacheKey \<Rightarrow> buffer \<Rightarrow> world \<Rightarrow> world" where
  "storeToS3Cache k buf w =
     (case storeToS3Cache_try k buf w of (Inl e, w') \<Rightarrow> w' | (Inr u, w') \<Rightarrow> w')"

section \<open>Generation and the lookup\<close>

text \<open>\<open>generatePollyAudio(text, voiceId, options)\<close> sends one request and collects the
  audio stream; the \<open>catch\<close> logs and throws the error again. \<open>pollyRequest\<close> is the
  sending, \<open>pollyResponse\<close> the answer.\<close>

definition pollyRequest :: "string \<Rightarrow> string \<Rightarrow> world \<Rightarrow> world" where
  "pollyRequest text voiceId w = w\<lparr>pollyLog := pollyLog w @ [(text, voiceId)]\<rparr>"

definition pollyResponse :: "string \<Rightarrow> string \<Rightarrow> options \<Rightarrow> world \<Rightarrow> error + buffer" where
  "pollyResponse text voiceId opts w =
     (case pollySynthesize w text voiceId (or_default (format opts) ''mp3'')
             (or_default (engine opts) ''neural'') of
        Inl msg \<Rightarrow> Inl (PollyError msg)
      | Inr audio \<Rightarrow> Inr audio)"

definition generatePollyAudio :: "string \<Rightarrow> string \<Rightarrow> options \<Rightarrow> world \<Rightarrow> (error + buffer) \<times> world" where
  "generatePollyAudio text voiceId opts w =
     (let w1 = pollyRequest text voiceId w in (pollyResponse text voiceId opts w1, w1))"

text \<open>\<open>storeInAllCaches(cacheKey, audioBuffer)\<close>: memory, then disk, then the S3 request,
  which is not awaited.\<close>

definition storeInAllCaches :: "cacheKey \<Rightarrow> buffer \<Rightarrow> cache \<times> world \<Rightarrow> cache \<times> world" where
  "storeInAllCaches k buf cw =
     (let c1 = storeInMemoryCache k buf (clock (snd cw)) (fst cw);
          cw2 = storeToDiskCache k buf (c1, snd cw)
      in if s3Cache (fst cw2) then (fst cw2, storeToS3Cache k buf (snd cw2)) else cw2)"

text \<open>The object \<open>getAudioWithCache\<close> returns.\<close>

record result =
  audioBuffer :: buffer
  source :: string
  cacheKey :: string
  fromCache :: bool

text \<open>\<open>getAudioWithCache(text, voiceId, options)\<close>, one call running alone from its
  first statement to its return. \<open>Inl\<close> is the error the call throws.\<close>

definition getAudioWithCache ::
    "string \<Rightarrow> string \<Rightarrow> options \<Rightarrow> cache \<times> world \<Rightarrow> (error + result) \<times> (cache \<times> world)" where
  "getAudioWithCache text voiceId opts cw =
     (let c0 = (fst cw)\<lparr>totalRequests := totalRequests (fst cw) + 1\<rparr>;
          w0 = snd cw;
          k = generateCacheKey text voiceId opts;
          memoryResult = checkMemoryCache k (clock w0) c0;
          c1 = snd memoryResult
      in case fst memoryResult of
           Some buf \<Rightarrow>
             (Inr \<lparr>audioBuffer = buf, source = ''memory'', cacheKey = k, fromCache = True\<rparr>,
              (c1\<lparr>memoryHits := memoryHits c1 + 1\<rparr>, w0))
         | None \<Rightarrow>
             (let diskResult = checkDiskCache k c1 w0; w1 = snd diskResult
              in case fst diskResult of
                   Some buf \<Rightarrow>
                     (Inr \<lparr>audioBuffer = buf, source = ''disk'', cacheKey = k, fromCache = True\<rparr>,
                      (storeInMemoryCache k buf (clock w1) (c1\<lparr>diskHits := diskHits c1 + 1\<rparr>), w1))
                 | None \<Rightarrow>
                     (let s3Result = (if s3Cache c1 then checkS3Cache k c1 w1 else (None, w1));
                          w2 = snd s3Result
                      in case fst s3Result of
                           Some buf \<Rightarrow>
                             (Inr \<lparr>audioBuffer = buf, source = ''s3'', cacheKey = k, fromCache = True\<rparr>,
                              storeToDiskCache k buf
                                (storeInMemoryCache k buf (clock w2) (c1\<lparr>s3Hits := s3Hits c1 + 1\<rparr>), w2))
                         | None \<Rightarrow>
                             (let c2 = c1\<lparr>misses := misses c1 + 1\<rparr>;
                                  gen = generatePollyAudio text voiceId opts w2
                              in case fst gen of
                                   Inl e \<Rightarrow> (Inl e, (c2, snd gen))
                                 | Inr buf \<Rightarrow>
                                     (Inr \<lparr>audioBuffer = buf, source = ''generated'', cacheKey = k,
                                           fromCache = False\<rparr>,
                                      storeInAllCaches k buf (c2, snd gen))))))"

section \<open>Failover monitoring\<close>

text \<open>The services \<open>initializeServices\<close> registers: \<open>polly\<close>, \<open>transcribe\<close>, \<open>s3-cache\<close>,
  \<open>cloudfront\<close>, \<open>websocket\<close>, \<open>kafka\<close>; and the three status texts.\<close>

datatype service = Polly | Transcribe | S3Cache | CloudFront | WebSocket | Kafka

datatype status = Healthy | Degraded | Failed

text \<open>What a health check returns: \<open>{ healthy, error }\<close>.\<close>

record health =
  healthy :: bool
  errorMessage :: string

text \<open>The monitor's fields, with the list of the \<open>triggerFailover\<close> calls made so far.\<close>

record monitor =
  failoverThreshold :: nat
  consecutiveFailures :: "service \<Rightarrow> nat"
  serviceStatus :: "service \<Rightarrow> status"
  failovers :: "service list"

definition serviceName :: "service \<Rightarrow> string" where
  "serviceName s = (case s of Polly \<Rightarrow> ''polly'' | Transcribe \<Rightarrow> ''transcribe''
     | S3Cache \<Rightarrow> ''s3-cache'' | CloudFront \<Rightarrow> ''cloudfront''
     | WebSocket \<Rightarrow> ''websocket'' | Kafka \<Rightarrow> ''kafka'')"

text \<open>The state after the constructor and the synchronous part of \<open>initializeServices\<close>.\<close>

definition newMonitor :: monitor where
  "newMonitor = \<lparr> failoverThreshold = 3, consecutiveFailures = (\<lambda>s. 0),
       serviceStatus = (\<lambda>s. Healthy), failovers = [] \<rparr>"

text \<open>The four failover actions write \<open>process.env\<close>. \<open>pollyFailover\<close> first tries the
  region \<open>us-east-1\<close>; \<open>pollyFallbackOk\<close> tells whether that request succeeds.\<close>

definition pollyFailover :: "world \<Rightarrow> world" where
  "pollyFailover w =
     (if pollyFallbackOk w then w\<lparr>env := (env w)(''POLLY_FALLBACK_REGION'' \<mapsto> ''us-east-1'')\<rparr>
      else w\<lparr>env := (env w)(''POLLY_FALLBACK_MODE'' \<mapsto> ''cache_only'')\<rparr>)"

definition transcribeFailover :: "world \<Rightarrow> world" where
  "transcribeFailover w = w\<lparr>env := (env w)(''TRANSCRIBE_FALLBACK_REGION'' \<mapsto> ''us-east-1'')\<rparr>"

definition s3Failover :: "world \<Rightarrow> world" where
  "s3Failover w =
     w\<lparr>env := (env w)(''USE_S3_CACHE'' \<mapsto> ''false'', ''CACHE_MODE'' \<mapsto> ''memory_only'')\<rparr>"

definition cloudFrontFailover :: "world \<Rightarrow> world" where
  "cloudFrontFailover w =
     w\<lparr>env := (env w)(''USE_CLOUDFRONT'' \<mapsto> ''false'', ''AUDIO_DELIVERY_MODE'' \<mapsto> ''direct_s3'')\<rparr>"

text \<open>\<open>sendFailoverAlert(service, error)\<close> publishes to the SNS topic when one is
  configured.\<close>

definition sendFailoverAlert :: "service \<Rightarrow> world \<Rightarrow> world" where
  "sendFailoverAlert s w =
     (case env w ''SNS_ALERT_TOPIC_ARN'' of
        None \<Rightarrow> w
      | Some arn \<Rightarrow> if arn = [] then w else w\<lparr>snsLog := snsLog w @ [serviceName s]\<rparr>)"

text \<open>\<open>triggerFailover(service, error)\<close>: the action of the service, if it has one, then
  the alert. (The metric recorded last goes to CloudWatch only.)\<close>

definition triggerFailover :: "service \<Rightarrow> monitor \<times> world \<Rightarrow> monitor \<times> world" where
  "triggerFailover s mw =
     (let w1 = (case s of Polly \<Rightarrow> pollyFailover (snd mw)
                | Transcribe \<Rightarrow> transcribeFailover (snd mw)
                | S3Cache \<Rightarrow> s3Failover (snd mw)
                | CloudFront \<Rightarrow> cloudFrontFailover (snd mw)
                | _ \<Rightarrow> snd mw)
      in ((fst mw)\<lparr>failovers := failovers (fst mw) @ [s]\<rparr>, sendFailoverAlert s w1))"

text \<open>The body of the loop of \<open>performHealthCheck\<close> for one service, given the result of
  its check.\<close>

definition updateService :: "service \<Rightarrow> health \<Rightarrow> monitor \<times> world \<Rightarrow> monitor \<times> world" where
  "updateService s r mw =
     (let m = fst mw in
      if healthy r then
        (m\<lparr>consecutiveFailures := (consecutiveFailures m)(s := 0),
           serviceStatus := (serviceStatus m)(s := Healthy)\<rparr>, snd mw)
      else
        (let fails = consecutiveFailures m s + 1;
             m1 = m\<lparr>consecutiveFailures := (consecutiveFailures m)(s := fails)\<rparr>
         in if fails \<ge> failoverThreshold m1 then
              triggerFailover s (m1\<lparr>serviceStatus := (serviceStatus m1)(s := Failed)\<rparr>, snd mw)
            else (m1\<lparr>serviceStatus := (serviceStatus m1)(s := Degraded)\<rparr>, snd mw)))"

text \<open>\<open>performHealthCheck()\<close>: the four checked services in order; \<open>results\<close> gives the
  outcome of each service's check in this round.\<close>

definition performHealthCheck :: "(service \<Rightarrow> health) \<Rightarrow> monitor \<times> world \<Rightarrow> monitor \<times> world" where
  "performHealthCheck results mw =
     foldl (\<lambda>st s. updateService s (results s) st) mw [Polly, Transcribe, S3Cache, CloudFront]"

text \<open>Consecutive rounds of health checks.\<close>

fun healthRounds :: "(service \<Rightarrow> health) list \<Rightarrow> monitor \<times> world \<Rightarrow> monitor \<times> world" where
  "healthRounds [] mw = mw"
| "healthRounds (r # rs) mw = healthRounds rs (performHealthCheck r mw)"

section \<open>Calls in flight together\<close>

text \<open>
  \<open>getAudioWithCache\<close> is an \<open>async\<close> function: a call runs without interruption up to
  an \<open>await\<close>, and other calls run while it is suspended. A call in flight is its
  arguments and the place where it is suspended:
  \<^item> \<open>Start\<close>: called, nothing executed yet;
  \<^item> \<open>AwaitDisk r\<close>: the memory tier missed, \<open>checkDiskCache\<close> (which contains no
    \<open>await\<close>) has run with result \<open>r\<close>, the call is at \<open>await this.checkDiskCache\<close>;
  \<^item> \<open>AwaitS3\<close>: the disk tier missed, the call is at \<open>await this.checkS3Cache\<close>;
  \<^item> \<open>AwaitPolly\<close>: every tier missed, \<open>generatePollyAudio\<close> has sent its request, the
    call is at \<open>await this.pollyClient.send\<close>;
  \<^item> \<open>Finished r\<close>: the call has returned \<open>r\<close> or thrown.
  \<open>stepCaller\<close> resumes a call and runs it to its next suspension, on the cache and the
  environment all calls share. The requests and answers of \<open>checkS3Cache\<close>, and the stores
  after a hit or a generation, are accounted at the step that consumes them.
\<close>

datatype pc = Start | AwaitDisk "buffer option" | AwaitS3 | AwaitPolly | Finished "error + result"

record caller =
  c_text :: string
  c_voiceId :: string
  c_options :: options
  c_pc :: pc

definition stepCaller :: "caller \<Rightarrow> cache \<times> world \<Rightarrow> caller \<times> (cache \<times> world)" where
  "stepCaller p cw =
     (let k = generateCacheKey (c_text p) (c_voiceId p) (c_options p); c = fst cw; w = snd cw
      in case c_pc p of
           Start \<Rightarrow>
             (let memoryResult = checkMemoryCache k (clock w) (c\<lparr>totalRequests := totalRequests c + 1\<rparr>);
                  c1 = snd memoryResult
              in case fst memoryResult of
                   Some buf \<Rightarrow>
                     (p\<lparr>c_pc := Finished (Inr \<lparr>audioBuffer = buf, source = ''memory'',
                                                cacheKey = k, fromCache = True\<rparr>)\<rparr>,
                      (c1\<lparr>memoryHits := memoryHits c1 + 1\<rparr>, w))
                 | None \<Rightarrow>
                     (let diskResult = checkDiskCache k c1 w
                      in (p\<lparr>c_pc := AwaitDisk (fst diskResult)\<rparr>, (c1, snd diskResult))))
         | AwaitDisk diskResult \<Rightarrow>
             (case diskResult of
                Some buf \<Rightarrow>
                  (p\<lparr>c_pc := Finished (Inr \<lparr>audioBuffer = buf, source = ''disk'',
                                             cacheKey = k, fromCache = True\<rparr>)\<rparr>,
                   (storeInMemoryCache k buf (clock w) (c\<lparr>diskHits := diskHits c + 1\<rparr>), w))
              | None \<Rightarrow>
                  if s3Cache c then (p\<lparr>c_pc := AwaitS3\<rparr>, cw)
                  else (p\<lparr>c_pc := AwaitPolly\<rparr>,
                        (c\<lparr>misses := misses c + 1\<rparr>, pollyRequest (c_text p) (c_voiceId p) w)))
         | AwaitS3 \<Rightarrow>
             (let s3Result = checkS3Cache k c w; w2 = snd s3Result
              in case fst s3Result of
                   Some buf \<Rightarrow>
                     (p\<lparr>c_pc := Finished (Inr \<lparr>audioBuffer = buf, source = ''s3'',
                                                cacheKey = k, fromCache = True\<rparr>)\<rparr>,
                      storeToDiskCache k buf
                        (storeInMemoryCache k buf (clock w2) (c\<lparr>s3Hits := s3Hits c + 1\<rparr>), w2))
                 | None \<Rightarrow>
                     (p\<lparr>c_pc := AwaitPolly\<rparr>,
                      (c\<lparr>misses := misses c + 1\<rparr>, pollyRequest (c_text p) (c_voiceId p) w2)))
         | AwaitPolly \<Rightarrow>
             (case pollyResponse (c_text p) (c_voiceId p) (c_options p) w of
                Inl e \<Rightarrow> (p\<lparr>c_pc := Finished (Inl e)\<rparr>, cw)
              | Inr buf \<Rightarrow>
                  (p\<lparr>c_pc := Finished (Inr \<lparr>audioBuffer = buf, source = ''generated'',
                                             cacheKey = k, fromCache = False\<rparr>)\<rparr>,
                   storeInAllCaches k buf cw))
         | Finished r \<Rightarrow> (p, cw))"

text \<open>The calls in flight and the state they share. \<open>step i\<close> resumes call number \<open>i\<close>;
  a schedule is the list of the calls resumed, in order.\<close>

record config =
  callers :: "caller list"
  shared :: "cache \<times> world"

definition step :: "config \<Rightarrow> nat \<Rightarrow> config" where
  "step cfg i =
     (if i < length (callers cfg) then
        (let r = stepCaller (callers cfg ! i) (shared cfg)
         in \<lparr> callers = (callers cfg)[i := fst r], shared = snd r \<rparr>)
      else cfg)"

definition run :: "nat list \<Rightarrow> config \<Rightarrow> config" where
  "run sched cfg = foldl step cfg sched"

text \<open>A call has invoked the generator once it waits for Polly, or has returned generated
  audio, or has thrown (only \<open>generatePollyAudio\<close> throws).\<close>

definition invoked :: "caller \<Rightarrow> bool" where
  "invoked p =
     (case c_pc p of
        AwaitPolly \<Rightarrow> True
      | Finished (Inl e) \<Rightarrow> True
      | Finished (Inr r) \<Rightarrow> source r = ''generated''
      | _ \<Rightarrow> False)"

definition newCaller :: "string \<Rightarrow> string \<Rightarrow> options \<Rightarrow> caller" where
  "newCaller text voiceId opts =
     \<lparr> c_text = text, c_voiceId = voiceId, c_options = opts, c_pc = Start \<rparr>"

section \<open>Reference states\<close>

text \<open>An environment at time 0 with no files, no faults, an empty bucket, and a Polly
  that answers every request with three bytes.\<close>

definition quietWorld :: world where
  "quietWorld = \<lparr> clock = 0, env = Map.empty, mp3Files = Map.empty, metaFiles = Map.empty,
       fsReadFault = False, fsWriteFault = False,
       s3Head = (\<lambda>b k. Inl ''NotFound''), s3Get = (\<lambda>b k. Inl ''NoSuchKey''),
       s3Put = (\<lambda>b k d. None), s3Log = [],
       pollySynthesize = (\<lambda>t v f e. Inr [1, 2, 3]), pollyLog = [],
       pollyFallbackOk = True, snsLog = [] \<rparr>"

definition noOptions :: options where
  "noOptions = \<lparr> engine = None, format = None \<rparr>"

text \<open>A round of health checks in which only the check of \<open>s3-cache\<close> fails.\<close>

definition s3Down :: "service \<Rightarrow> health" where
  "s3Down s = \<lparr> healthy = (s \<noteq> S3Cache), errorMessage = (if s = S3Cache then ''timeout'' else []) \<rparr>"

definition allUp :: "service \<Rightarrow> health" where
  "allUp s = \<lparr> healthy = True, errorMessage = [] \<rparr>"

text \<open>The memory tier with room for two entries: put \<open>A\<close>, put \<open>B\<close>, get \<open>A\<close>, put \<open>C\<close>.\<close>

definition lruScenario :: cache where
  "lruScenario =
     (let c1 = storeInMemoryCache ''A'' [1] 10 (newCache\<lparr>maxMemoryCache := 2\<rparr>);
          c2 = storeInMemoryCache ''B'' [2] 20 c1;
          c3 = snd (checkMemoryCache ''A'' 30 c2)
      in storeInMemoryCache ''C'' [3] 40 c3)"

text \<open>A bucket that holds a fresh object for every key.\<close>

definition remoteHitWorld :: world where
  "remoteHitWorld = quietWorld\<lparr>s3Head := (\<lambda>b k. Inr 0), s3Get := (\<lambda>b k. Inr [7])\<rparr>"

text \<open>Two calls with the same arguments, just made, on a new cache.\<close>

definition twoCallers :: config where
  "twoCallers = \<lparr> callers = [newCaller ''Emergency alert'' ''Joanna'' noOptions,
                               newCaller ''Emergency alert'' ''Joanna'' noOptions],
                   shared = (newCache, quietWorld) \<rparr>"

text \<open>A call that has returned generated audio has returned what Polly answers, in
  environment \<open>w\<close>, to the call's own arguments.\<close>

definition ownAudio :: "world \<Rightarrow> caller \<Rightarrow> bool" where
  "ownAudio w p =
     (case c_pc p of
        Finished (Inr r) \<Rightarrow>
          source r \<noteq> ''generated''
          \<or> pollyResponse (c_text p) (c_voiceId p) (c_options p) w = Inr (audioBuffer r)
      | _ \<Rightarrow> True)"

text \<open>\<open>N\<close> calls in step: each of the calls 0 to \<open>N - 1\<close> is resumed once, in order, four
  times over. This is the order in which calls made in one turn of the event loop run
  when their requests are answered in the order they were sent.\<close>

definition lockstep :: "nat \<Rightarrow> nat list" where
  "lockstep n = [0..<n] @ [0..<n] @ [0..<n] @ [0..<n]"

text \<open>Every tier misses for key \<open>k\<close>, and Polly answers the arguments with \<open>buf\<close>.\<close>

definition allMiss :: "cacheKey \<Rightarrow> string \<Rightarrow> string \<Rightarrow> options \<Rightarrow> buffer \<Rightarrow> cache \<times> world \<Rightarrow> bool" where
  "allMiss k text voiceId opts buf cw =
     (map_get (memoryCache (fst cw)) k = None
      \<and> mp3Files (snd cw) k = None
      \<and> s3Cache (fst cw)
      \<and> isl (s3Head (snd cw) (bucketName (snd cw)) (s3ObjectKey k))
      \<and> pollyResponse text voiceId opts (snd cw) = Inr buf)"

section \<open>Facts about the table\<close>

lemma length_map_set_le: "length (map_set m k v) \<le> Suc (length m)"
  by (induction m) auto

lemma length_delete_first:
  "m \<noteq> [] \<Longrightarrow> map_first_key m = Some k \<Longrightarrow> Suc (length (map_delete m k)) \<le> length m"
proof (cases m)
  case Nil
  assume "m \<noteq> []"
  with Nil show ?thesis by simp
next
  case (Cons p ps)
  assume "map_first_key m = Some k"
  with Cons have "fst p = k" by (simp add: map_first_key_def)
  with Cons have "map_delete m k = filter (\<lambda>q. fst q \<noteq> k) ps"
    by (simp add: map_delete_def)
  moreover have "length (filter (\<lambda>q. fst q \<noteq> k) ps) \<le> length ps"
    by (rule length_filter_le)
  ultimately show ?thesis using Cons by simp
qed

lemma storeInMemoryCache_maxMemoryCache [simp]:
  "maxMemoryCache (storeInMemoryCache k b t c) = maxMemoryCache c"
  by (simp add: storeInMemoryCache_def Let_def)

lemma storeInMemoryCache_bounded:
  assumes cap: "0 < maxMemoryCache c"
    and le: "map_size (memoryCache c) \<le> maxMemoryCache c"
  shows "map_size (memoryCache (storeInMemoryCache k b t c)) \<le> maxMemoryCache c"
proof (cases "map_size (memoryCache c) \<ge> maxMemoryCache c")
  case False
  then have "memoryCache (storeInMemoryCache k b t c)
      = map_set (memoryCache c) k \<lparr>data = b, timestamp = t\<rparr>"
    by (simp add: storeInMemoryCache_def)
  moreover have "length (map_set (memoryCache c) k \<lparr>data = b, timestamp = t\<rparr>)
      \<le> Suc (length (memoryCache c))"
    by (rule length_map_set_le)
  ultimately show ?thesis using False by (simp add: map_size_def)
next
  case True
  with cap have ne: "memoryCache c \<noteq> []" by (auto simp: map_size_def)
  then obtain k0 where k0: "map_first_key (memoryCache c) = Some k0"
    by (cases "memoryCache c") (auto simp: map_first_key_def)
  have del: "Suc (length (map_delete (memoryCache c) k0)) \<le> length (memoryCache c)"
    using ne k0 by (rule length_delete_first)
  have "memoryCache (storeInMemoryCache k b t c)
      = map_set (map_delete (memoryCache c) k0) k \<lparr>data = b, timestamp = t\<rparr>"
    using True k0 by (simp add: storeInMemoryCache_def)
  moreover have "length (map_set (map_delete (memoryCache c) k0) k \<lparr>data = b, timestamp = t\<rparr>)
      \<le> Suc (length (map_delete (memoryCache c) k0))"
    by (rule length_map_set_le)
  ultimately show ?thesis using del le by (simp add: map_size_def)
qed

lemma storeAll_maxMemoryCache [simp]: "maxMemoryCache (storeAll ps c) = maxMemoryCache c"
  by (induction ps c rule: storeAll.induct) simp_all

lemma storeAll_bounded:
  "0 < maxMemoryCache c \<Longrightarrow> map_size (memoryCache c) \<le> maxMemoryCache c
    \<Longrightarrow> map_size (memoryCache (storeAll ps c)) \<le> maxMemoryCache c"
proof (induction ps c rule: storeAll.induct)
  case (1 c)
  then show ?case by simp
next
  case (2 k b t ps c)
  have "map_size (memoryCache (storeInMemoryCache k b t c)) \<le> maxMemoryCache c"
    using "2.prems" by (rule storeInMemoryCache_bounded)
  with "2.IH" "2.prems"(1) show ?case by simp
qed

section \<open>Memory tier: occupancy and eviction order\<close>

text \<open>
  C5. Starting from an empty memory tier with a positive capacity (the constructor sets
  50), after any sequence of \<open>storeInMemoryCache\<close> calls the number of entries is at most
  \<open>maxMemoryCache\<close>. Every prefix of a sequence is a sequence, so the bound holds after
  each call.
\<close>

theorem memory_occupancy_bounded:
  assumes cap: "0 < maxMemoryCache c" and empty: "memoryCache c = []"
  shows "map_size (memoryCache (storeAll ps c)) \<le> maxMemoryCache c"
proof -
  have "map_size (memoryCache c) = 0"
    using empty by (simp add: map_size_def)
  then have "map_size (memoryCache c) \<le> maxMemoryCache c"
    by simp
  with cap show ?thesis
    by (rule storeAll_bounded)
qed

theorem memory_occupancy_bounded_witness:
  "0 < maxMemoryCache newCache \<and> memoryCache newCache = []
   \<and> map_size (memoryCache (storeAll [(''a'', [1], 10), (''b'', [2], 20)] newCache))
       \<le> maxMemoryCache newCache
   \<and> 0 < maxMemoryCache (newCache\<lparr>maxMemoryCache := 1\<rparr>)
   \<and> memoryCache (newCache\<lparr>maxMemoryCache := 1\<rparr>) = []
   \<and> map_size (memoryCache (storeAll [(''a'', [1], 10), (''b'', [2], 20)]
         (newCache\<lparr>maxMemoryCache := 1\<rparr>))) \<le> maxMemoryCache (newCache\<lparr>maxMemoryCache := 1\<rparr>)
   \<and> map_keys (memoryCache (storeAll [(''a'', [1], 10), (''b'', [2], 20)]
         (newCache\<lparr>maxMemoryCache := 1\<rparr>))) = [''b'']"
  using memory_occupancy_bounded [of newCache "[(''a'', [1], 10), (''b'', [2], 20)]"]
    memory_occupancy_bounded [of "newCache\<lparr>maxMemoryCache := 1\<rparr>"
      "[(''a'', [1], 10), (''b'', [2], 20)]"]
  by (simp add: newCache_def storeInMemoryCache_def map_size_def map_first_key_def
      map_delete_def map_keys_def)

text \<open>A hit leaves the table, and so the order in which entries are evicted, as it was.\<close>

lemma checkMemoryCache_hit_unchanged:
  "fst (checkMemoryCache k now c) = Some b \<Longrightarrow> snd (checkMemoryCache k now c) = c"
  by (auto simp: checkMemoryCache_def split: option.splits if_splits)

text \<open>A put into a full table removes the key inserted first, whatever was read since.\<close>

lemma storeInMemoryCache_evicts_first:
  assumes full: "map_size (memoryCache c) \<ge> maxMemoryCache c"
    and first: "memoryCache c = (k0, e0) # rest"
    and fresh: "k \<noteq> k0"
    and dist: "k0 \<notin> fst ` set rest"
  shows "map_get (memoryCache (storeInMemoryCache k buf now c)) k0 = None"
proof -
  have del: "map_delete ((k0, e0) # rest) k0 = rest"
    using dist by (auto simp: map_delete_def filter_id_conv)
  have "fst ` set (map_set rest k v) \<subseteq> insert k (fst ` set rest)" for v
    by (induction rest) auto
  then have none: "map_of (map_set rest k v) k0 = None" for v
    using dist fresh by (auto simp: map_of_eq_None_iff)
  show ?thesis
    using full first del none by (simp add: storeInMemoryCache_def map_first_key_def map_get_def)
qed

text \<open>
  C2. The claim's scenario on the code: capacity 2, put \<open>A\<close>, put \<open>B\<close>, get \<open>A\<close> (a hit),
  put \<open>C\<close>. The entry evicted is \<open>A\<close>, the one just read; \<open>B\<close> and \<open>C\<close> remain.
\<close>

theorem lru_scenario_evicts_touched_entry:
  "fst (checkMemoryCache ''A'' 30
          (storeInMemoryCache ''B'' [2] 20
             (storeInMemoryCache ''A'' [1] 10 (newCache\<lparr>maxMemoryCache := 2\<rparr>)))) = Some [1]
   \<and> map_keys (memoryCache lruScenario) = [''B'', ''C'']
   \<and> map_get (memoryCache lruScenario) ''A'' = None
   \<and> map_get (memoryCache lruScenario) ''B'' = Some \<lparr>data = [2], timestamp = 20\<rparr>"
  by (simp add: lruScenario_def newCache_def storeInMemoryCache_def checkMemoryCache_def
      map_size_def map_first_key_def map_delete_def map_keys_def map_get_def)

section \<open>Expiry\<close>

text \<open>An entry of the memory tier whose age has reached \<open>cacheExpiry\<close> is a miss and is
  removed.\<close>

lemma checkMemoryCache_expired:
  "map_get (memoryCache c) k = Some e \<Longrightarrow> now - timestamp e \<ge> cacheExpiry c
     \<Longrightarrow> checkMemoryCache k now c = (None, c\<lparr>memoryCache := map_delete (memoryCache c) k\<rparr>)"
  by (simp add: checkMemoryCache_def)

text \<open>An entry of the disk tier older than \<open>cacheExpiry\<close> is a miss and, when the files can
  be removed, both files are.\<close>

lemma checkDiskCache_expired:
  "mp3Files w k = Some b \<Longrightarrow> metaFiles w k = Some (Meta ts sz mk) \<Longrightarrow> \<not> fsReadFault w
     \<Longrightarrow> \<not> fsWriteFault w \<Longrightarrow> clock w - ts > cacheExpiry c
     \<Longrightarrow> checkDiskCache k c w
          = (None, w\<lparr>mp3Files := (mp3Files w)(k := None), metaFiles := (metaFiles w)(k := None)\<rparr>)"
  by (simp add: checkDiskCache_def checkDiskCache_try_def)

text \<open>An object of the remote tier older than \<open>cacheExpiry\<close> is a miss; the only request
  sent is the \<open>HeadObjectCommand\<close>.\<close>

lemma checkS3Cache_expired:
  "s3Head w (bucketName w) (s3ObjectKey k) = Inr lm \<Longrightarrow> clock w - lm > cacheExpiry c
     \<Longrightarrow> checkS3Cache k c w
          = (None, w\<lparr>s3Log := s3Log w @ [HeadObject (bucketName w) (s3ObjectKey k)]\<rparr>)"
  by (simp add: checkS3Cache_def checkS3Cache_try_def)

text \<open>
  C6. At the age of exactly \<open>cacheExpiry\<close> (24 hours, entry created at time 0) the memory
  tier misses and removes the entry, while the disk tier and the remote tier return the
  payload: they compare with \<open>age > cacheExpiry\<close> where the memory tier requires
  \<open>age < cacheExpiry\<close>.
\<close>

theorem expiry_boundary_differs_between_tiers:
  "checkMemoryCache ''k'' 86400000
      (newCache\<lparr>memoryCache := [(''k'', \<lparr>data = [7], timestamp = 0\<rparr>)]\<rparr>)
     = (None, newCache)
   \<and> checkDiskCache ''k'' newCache
        (quietWorld\<lparr>clock := 86400000, mp3Files := [''k'' \<mapsto> [7]],
                     metaFiles := [''k'' \<mapsto> Meta 0 1 ''k'']\<rparr>)
     = (Some [7], quietWorld\<lparr>clock := 86400000, mp3Files := [''k'' \<mapsto> [7]],
                     metaFiles := [''k'' \<mapsto> Meta 0 1 ''k'']\<rparr>)
   \<and> fst (checkS3Cache ''k'' newCache
        (quietWorld\<lparr>clock := 86400000, s3Head := (\<lambda>b k. Inr 0), s3Get := (\<lambda>b k. Inr [7])\<rparr>))
     = Some [7]"
  by (simp add: newCache_def quietWorld_def checkMemoryCache_def checkDiskCache_def
      checkDiskCache_try_def checkS3Cache_def checkS3Cache_try_def map_get_def map_delete_def)

section \<open>What each operation leaves unchanged\<close>

lemma map_of_map_set_same: "map_of (map_set m k v) k = Some v"
  by (induction m) auto

lemma store_then_check_memory:
  "t - now < cacheExpiry c \<Longrightarrow>
     checkMemoryCache k t (storeInMemoryCache k buf now c)
       = (Some buf, storeInMemoryCache k buf now c)"
  by (simp add: checkMemoryCache_def storeInMemoryCache_def Let_def map_get_def map_of_map_set_same)

lemma storeInMemoryCache_fields [simp]:
  "cacheExpiry (storeInMemoryCache k buf now c) = cacheExpiry c"
  "s3Cache (storeInMemoryCache k buf now c) = s3Cache c"
  "diskCache (storeInMemoryCache k buf now c) = diskCache c"
  "maxDiskCache (storeInMemoryCache k buf now c) = maxDiskCache c"
  "misses (storeInMemoryCache k buf now c) = misses c"
  "memoryHits (storeInMemoryCache k buf now c) = memoryHits c"
  "diskHits (storeInMemoryCache k buf now c) = diskHits c"
  "s3Hits (storeInMemoryCache k buf now c) = s3Hits c"
  "totalRequests (storeInMemoryCache k buf now c) = totalRequests c"
  by (simp_all add: storeInMemoryCache_def Let_def)

lemma checkMemoryCache_fields [simp]:
  "cacheExpiry (snd (checkMemoryCache k now c)) = cacheExpiry c"
  "s3Cache (snd (checkMemoryCache k now c)) = s3Cache c"
  "diskCache (snd (checkMemoryCache k now c)) = diskCache c"
  "maxDiskCache (snd (checkMemoryCache k now c)) = maxDiskCache c"
  "maxMemoryCache (snd (checkMemoryCache k now c)) = maxMemoryCache c"
  "misses (snd (checkMemoryCache k now c)) = misses c"
  "memoryHits (snd (checkMemoryCache k now c)) = memoryHits c"
  "diskHits (snd (checkMemoryCache k now c)) = diskHits c"
  "s3Hits (snd (checkMemoryCache k now c)) = s3Hits c"
  "totalRequests (snd (checkMemoryCache k now c)) = totalRequests c"
  by (simp_all add: checkMemoryCache_def split: option.splits)

lemma checkDiskCache_world [simp]:
  "clock (snd (checkDiskCache k c w)) = clock w"
  "env (snd (checkDiskCache k c w)) = env w"
  "fsReadFault (snd (checkDiskCache k c w)) = fsReadFault w"
  "fsWriteFault (snd (checkDiskCache k c w)) = fsWriteFault w"
  "s3Head (snd (checkDiskCache k c w)) = s3Head w"
  "s3Get (snd (checkDiskCache k c w)) = s3Get w"
  "s3Log (snd (checkDiskCache k c w)) = s3Log w"
  "pollySynthesize (snd (checkDiskCache k c w)) = pollySynthesize w"
  "pollyLog (snd (checkDiskCache k c w)) = pollyLog w"
  by (simp_all add: checkDiskCache_def checkDiskCache_try_def
      split: option.splits metaFile.splits)

lemma checkS3Cache_world [simp]:
  "clock (snd (checkS3Cache k c w)) = clock w"
  "env (snd (checkS3Cache k c w)) = env w"
  "mp3Files (snd (checkS3Cache k c w)) = mp3Files w"
  "metaFiles (snd (checkS3Cache k c w)) = metaFiles w"
  "fsReadFault (snd (checkS3Cache k c w)) = fsReadFault w"
  "fsWriteFault (snd (checkS3Cache k c w)) = fsWriteFault w"
  "s3Head (snd (checkS3Cache k c w)) = s3Head w"
  "s3Get (snd (checkS3Cache k c w)) = s3Get w"
  "pollySynthesize (snd (checkS3Cache k c w)) = pollySynthesize w"
  "pollyLog (snd (checkS3Cache k c w)) = pollyLog w"
  by (simp_all add: checkS3Cache_def checkS3Cache_try_def Let_def
      split: sum.splits error.splits)

lemma removeDiskCacheEntry_fields [simp]:
  "memoryCache (fst (removeDiskCacheEntry ko cw)) = memoryCache (fst cw)"
  "cacheExpiry (fst (removeDiskCacheEntry ko cw)) = cacheExpiry (fst cw)"
  "s3Cache (fst (removeDiskCacheEntry ko cw)) = s3Cache (fst cw)"
  "misses (fst (removeDiskCacheEntry ko cw)) = misses (fst cw)"
  "memoryHits (fst (removeDiskCacheEntry ko cw)) = memoryHits (fst cw)"
  "diskHits (fst (removeDiskCacheEntry ko cw)) = diskHits (fst cw)"
  "s3Hits (fst (removeDiskCacheEntry ko cw)) = s3Hits (fst cw)"
  "clock (snd (removeDiskCacheEntry ko cw)) = clock (snd cw)"
  "env (snd (removeDiskCacheEntry ko cw)) = env (snd cw)"
  "fsReadFault (snd (removeDiskCacheEntry ko cw)) = fsReadFault (snd cw)"
  "fsWriteFault (snd (removeDiskCacheEntry ko cw)) = fsWriteFault (snd cw)"
  "s3Log (snd (removeDiskCacheEntry ko cw)) = s3Log (snd cw)"
  "pollyLog (snd (removeDiskCacheEntry ko cw)) = pollyLog (snd cw)"
  by (simp_all add: removeDiskCacheEntry_def Let_def)

lemma storeToDiskCache_fields [simp]:
  "memoryCache (fst (storeToDiskCache k buf cw)) = memoryCache (fst cw)"
  "cacheExpiry (fst (storeToDiskCache k buf cw)) = cacheExpiry (fst cw)"
  "s3Cache (fst (storeToDiskCache k buf cw)) = s3Cache (fst cw)"
  "misses (fst (storeToDiskCache k buf cw)) = misses (fst cw)"
  "memoryHits (fst (storeToDiskCache k buf cw)) = memoryHits (fst cw)"
  "diskHits (fst (storeToDiskCache k buf cw)) = diskHits (fst cw)"
  "s3Hits (fst (storeToDiskCache k buf cw)) = s3Hits (fst cw)"
  "clock (snd (storeToDiskCache k buf cw)) = clock (snd cw)"
  "env (snd (storeToDiskCache k buf cw)) = env (snd cw)"
  "fsReadFault (snd (storeToDiskCache k buf cw)) = fsReadFault (snd cw)"
  "fsWriteFault (snd (storeToDiskCache k buf cw)) = fsWriteFault (snd cw)"
  "s3Log (snd (storeToDiskCache k buf cw)) = s3Log (snd cw)"
  "pollyLog (snd (storeToDiskCache k buf cw)) = pollyLog (snd cw)"
  by (simp_all add: storeToDiskCache_def Let_def)

lemma storeToDiskCache_files:
  "\<not> fsWriteFault (snd cw) \<Longrightarrow>
     mp3Files (snd (storeToDiskCache k buf cw)) k = Some buf
   \<and> metaFiles (snd (storeToDiskCache k buf cw)) k = Some (Meta (clock (snd cw)) (length buf) k)"
  by (simp add: storeToDiskCache_def Let_def)

lemma checkDiskCache_fresh:
  "mp3Files w k = Some buf \<Longrightarrow> metaFiles w k = Some (Meta ts sz mk) \<Longrightarrow> \<not> fsReadFault w
     \<Longrightarrow> clock w - ts \<le> cacheExpiry c \<Longrightarrow> checkDiskCache k c w = (Some buf, w)"
  by (simp add: checkDiskCache_def checkDiskCache_try_def)

text \<open>The outcome of the disk probe does not depend on whether files can be written.\<close>

lemma checkDiskCache_fst_write_fault:
  "fst (checkDiskCache k c (w\<lparr>fsWriteFault := b\<rparr>)) = fst (checkDiskCache k c w)"
  by (simp add: checkDiskCache_def checkDiskCache_try_def
      split: option.splits metaFile.splits)

lemma checkS3Cache_fst_write_fault:
  "fst (checkS3Cache k c (w\<lparr>fsWriteFault := b\<rparr>)) = fst (checkS3Cache k c w)"
  by (simp add: checkS3Cache_def checkS3Cache_try_def Let_def bucketName_def
      split: sum.splits error.splits)

lemma checkS3Cache_fst_cong:
  "s3Head w' = s3Head w \<Longrightarrow> s3Get w' = s3Get w \<Longrightarrow> env w' = env w \<Longrightarrow> clock w' = clock w
     \<Longrightarrow> cacheExpiry c' = cacheExpiry c
     \<Longrightarrow> fst (checkS3Cache k c' w') = fst (checkS3Cache k c w)"
  by (simp add: checkS3Cache_def checkS3Cache_try_def Let_def bucketName_def
      split: sum.splits error.splits)

lemma pollyResponse_cong:
  "pollySynthesize w' = pollySynthesize w
     \<Longrightarrow> pollyResponse text voiceId opts w' = pollyResponse text voiceId opts w"
  by (simp add: pollyResponse_def)

lemma pollyRequest_fields [simp]:
  "pollySynthesize (pollyRequest t v w) = pollySynthesize w"
  "pollyLog (pollyRequest t v w) = pollyLog w @ [(t, v)]"
  "s3Log (pollyRequest t v w) = s3Log w"
  "clock (pollyRequest t v w) = clock w"
  "fsWriteFault (pollyRequest t v w) = fsWriteFault w"
  by (simp_all add: pollyRequest_def)

lemma storeToS3Cache_fields [simp]:
  "s3Log (storeToS3Cache k buf w) = s3Log w @ [PutObject (bucketName w) (s3ObjectKey k) buf]"
  "pollyLog (storeToS3Cache k buf w) = pollyLog w"
  "pollySynthesize (storeToS3Cache k buf w) = pollySynthesize w"
  by (simp_all add: storeToS3Cache_def storeToS3Cache_try_def Let_def split: option.splits)

lemma storeInAllCaches_fields [simp]:
  "misses (fst (storeInAllCaches k buf cw)) = misses (fst cw)"
  "memoryHits (fst (storeInAllCaches k buf cw)) = memoryHits (fst cw)"
  "diskHits (fst (storeInAllCaches k buf cw)) = diskHits (fst cw)"
  "s3Hits (fst (storeInAllCaches k buf cw)) = s3Hits (fst cw)"
  "pollyLog (snd (storeInAllCaches k buf cw)) = pollyLog (snd cw)"
  by (simp_all add: storeInAllCaches_def Let_def)

lemma checkMemoryCache_fst_cong:
  "memoryCache c' = memoryCache c \<Longrightarrow> cacheExpiry c' = cacheExpiry c
     \<Longrightarrow> fst (checkMemoryCache k t c') = fst (checkMemoryCache k t c)"
  by (simp add: checkMemoryCache_def split: option.splits)

lemma checkMemoryCache_after_storeToDiskCache [simp]:
  "fst (checkMemoryCache k t (fst (storeToDiskCache k' buf cw))) = fst (checkMemoryCache k t (fst cw))"
  by (rule checkMemoryCache_fst_cong) simp_all

lemma checkDiskCache_fst_cong:
  "mp3Files w' = mp3Files w \<Longrightarrow> metaFiles w' = metaFiles w \<Longrightarrow> fsReadFault w' = fsReadFault w
     \<Longrightarrow> clock w' = clock w \<Longrightarrow> cacheExpiry c' = cacheExpiry c
     \<Longrightarrow> fst (checkDiskCache k c' w') = fst (checkDiskCache k c w)"
  by (simp add: checkDiskCache_def checkDiskCache_try_def split: option.splits metaFile.splits)

lemma getAudioWithCache_fst_write_fault:
  "fst (getAudioWithCache text voiceId opts (c, w\<lparr>fsWriteFault := b\<rparr>))
     = fst (getAudioWithCache text voiceId opts (c, w))"
proof -
  let ?k = "generateCacheKey text voiceId opts"
  let ?c1 = "snd (checkMemoryCache ?k (clock w) (c\<lparr>totalRequests := totalRequests c + 1\<rparr>))"
  have d: "fst (checkDiskCache ?k ?c1 (w\<lparr>fsWriteFault := b\<rparr>)) = fst (checkDiskCache ?k ?c1 w)"
    by (rule checkDiskCache_fst_write_fault)
  have s: "fst (checkS3Cache ?k ?c1 (snd (checkDiskCache ?k ?c1 (w\<lparr>fsWriteFault := b\<rparr>))))
      = fst (checkS3Cache ?k ?c1 (snd (checkDiskCache ?k ?c1 w)))"
    by (rule checkS3Cache_fst_cong) simp_all
  have p: "pollyResponse text voiceId opts
        (pollyRequest text voiceId (snd (checkS3Cache ?k ?c1 (snd (checkDiskCache ?k ?c1 (w\<lparr>fsWriteFault := b\<rparr>))))))
      = pollyResponse text voiceId opts
        (pollyRequest text voiceId (snd (checkS3Cache ?k ?c1 (snd (checkDiskCache ?k ?c1 w)))))"
    by (rule pollyResponse_cong) simp
  have p': "pollyResponse text voiceId opts
        (pollyRequest text voiceId (snd (checkDiskCache ?k ?c1 (w\<lparr>fsWriteFault := b\<rparr>))))
      = pollyResponse text voiceId opts
        (pollyRequest text voiceId (snd (checkDiskCache ?k ?c1 w)))"
    by (rule pollyResponse_cong) simp
  show ?thesis
    using d s p p'
    by (simp add: getAudioWithCache_def Let_def generatePollyAudio_def
        split: option.splits sum.splits)
qed

section \<open>The lookup: promotion and failures\<close>

text \<open>
  C7. When \<open>getAudioWithCache\<close> answers from the disk tier or from the remote tier, the
  payload is in the memory tier afterwards: a \<open>checkMemoryCache\<close> of the same key at any
  time \<open>t\<close> before the entry expires returns it. After an answer from the remote tier
  the payload is in the disk tier as well, when the files can be written. A disk that
  cannot be written does not change what the caller receives.
\<close>

theorem promotion_after_slower_hit:
  assumes res: "fst (getAudioWithCache text voiceId opts (c, w)) = Inr r"
    and src: "source r = ''disk'' \<or> source r = ''s3''"
  shows "(t - clock w < cacheExpiry c \<longrightarrow>
            fst (checkMemoryCache (cacheKey r) t (fst (snd (getAudioWithCache text voiceId opts (c, w)))))
              = Some (audioBuffer r))
       \<and> (source r = ''s3'' \<longrightarrow> \<not> fsWriteFault w \<longrightarrow> \<not> fsReadFault w \<longrightarrow> t - clock w \<le> cacheExpiry c \<longrightarrow>
            fst (checkDiskCache (cacheKey r) (fst (snd (getAudioWithCache text voiceId opts (c, w))))
                   ((snd (snd (getAudioWithCache text voiceId opts (c, w))))\<lparr>clock := t\<rparr>))
              = Some (audioBuffer r))
       \<and> fst (getAudioWithCache text voiceId opts (c, w\<lparr>fsWriteFault := True\<rparr>)) = Inr r"
proof (intro conjI impI)
  assume "t - clock w < cacheExpiry c"
  then show "fst (checkMemoryCache (cacheKey r) t (fst (snd (getAudioWithCache text voiceId opts (c, w)))))
              = Some (audioBuffer r)"
    using res src
    by (auto simp: getAudioWithCache_def Let_def store_then_check_memory generatePollyAudio_def
        split: option.splits sum.splits if_splits)
next
  assume "source r = ''s3''" "\<not> fsWriteFault w" "\<not> fsReadFault w" "t - clock w \<le> cacheExpiry c"
  then show "fst (checkDiskCache (cacheKey r) (fst (snd (getAudioWithCache text voiceId opts (c, w))))
                   ((snd (snd (getAudioWithCache text voiceId opts (c, w))))\<lparr>clock := t\<rparr>))
              = Some (audioBuffer r)"
    using res
    by (auto simp: getAudioWithCache_def Let_def generatePollyAudio_def storeToDiskCache_files
         checkDiskCache_fresh
        split: option.splits sum.splits if_splits)
next
  show "fst (getAudioWithCache text voiceId opts (c, w\<lparr>fsWriteFault := True\<rparr>)) = Inr r"
    using res getAudioWithCache_fst_write_fault [where b = True] by simp
qed


text \<open>The definitions unfolded to run the lookup on a given state.\<close>

lemmas eval_defs = getAudioWithCache_def newCache_def quietWorld_def noOptions_def
  checkMemoryCache_def checkDiskCache_def checkDiskCache_try_def checkS3Cache_def
  checkS3Cache_try_def storeInMemoryCache_def storeToDiskCache_def removeDiskCacheEntry_def
  storeInAllCaches_def storeToS3Cache_def storeToS3Cache_try_def generatePollyAudio_def
  pollyRequest_def
  pollyResponse_def map_get_def map_delete_def map_size_def map_first_key_def
  bucketName_def or_default_def Let_def

theorem promotion_after_slower_hit_witness:
  "fst (getAudioWithCache ''Emergency alert'' ''Joanna'' noOptions (newCache, remoteHitWorld))
     = Inr \<lparr>audioBuffer = [7], source = ''s3'',
            cacheKey = generateCacheKey ''Emergency alert'' ''Joanna'' noOptions, fromCache = True\<rparr>
   \<and> fst (checkMemoryCache (generateCacheKey ''Emergency alert'' ''Joanna'' noOptions) 5
         (fst (snd (getAudioWithCache ''Emergency alert'' ''Joanna'' noOptions (newCache, remoteHitWorld)))))
     = Some [7]
   \<and> fst (checkDiskCache (generateCacheKey ''Emergency alert'' ''Joanna'' noOptions)
         (fst (snd (getAudioWithCache ''Emergency alert'' ''Joanna'' noOptions (newCache, remoteHitWorld))))
         ((snd (snd (getAudioWithCache ''Emergency alert'' ''Joanna'' noOptions (newCache, remoteHitWorld))))
            \<lparr>clock := 5\<rparr>))
     = Some [7]
   \<and> fst (getAudioWithCache ''Emergency alert'' ''Joanna'' noOptions
         (newCache, remoteHitWorld\<lparr>fsWriteFault := True\<rparr>))
     = Inr \<lparr>audioBuffer = [7], source = ''s3'',
            cacheKey = generateCacheKey ''Emergency alert'' ''Joanna'' noOptions, fromCache = True\<rparr>"
proof -
  let ?r = "\<lparr>audioBuffer = [7], source = ''s3'',
            cacheKey = generateCacheKey ''Emergency alert'' ''Joanna'' noOptions, fromCache = True\<rparr>"
  have res: "fst (getAudioWithCache ''Emergency alert'' ''Joanna'' noOptions (newCache, remoteHitWorld))
      = Inr ?r"
    by (simp add: remoteHitWorld_def eval_defs)
  have src: "source ?r = ''disk'' \<or> source ?r = ''s3''" by simp
  have w: "clock remoteHitWorld = 0" "cacheExpiry newCache = 86400000"
    "\<not> fsWriteFault remoteHitWorld" "\<not> fsReadFault remoteHitWorld"
    by (simp_all add: remoteHitWorld_def quietWorld_def newCache_def)
  show ?thesis
    using promotion_after_slower_hit [OF res src, of 5] res w by simp
qed

lemma getAudioWithCache_error:
  assumes "fst (getAudioWithCache text voiceId opts (c, w)) = Inl e"
  shows "pollyResponse text voiceId opts w = Inl e
       \<and> misses (fst (snd (getAudioWithCache text voiceId opts (c, w)))) = misses c + 1
       \<and> memoryHits (fst (snd (getAudioWithCache text voiceId opts (c, w)))) = memoryHits c
       \<and> diskHits (fst (snd (getAudioWithCache text voiceId opts (c, w)))) = diskHits c
       \<and> s3Hits (fst (snd (getAudioWithCache text voiceId opts (c, w)))) = s3Hits c
       \<and> pollyLog (snd (snd (getAudioWithCache text voiceId opts (c, w)))) = pollyLog w @ [(text, voiceId)]"
proof -
  let ?k = "generateCacheKey text voiceId opts"
  let ?c1 = "snd (checkMemoryCache ?k (clock w) (c\<lparr>totalRequests := totalRequests c + 1\<rparr>))"
  let ?w1 = "snd (checkDiskCache ?k ?c1 w)"
  have p: "pollyResponse text voiceId opts (pollyRequest text voiceId (snd (checkS3Cache ?k ?c1 ?w1)))
      = pollyResponse text voiceId opts w"
    by (rule pollyResponse_cong) simp
  have p': "pollyResponse text voiceId opts (pollyRequest text voiceId ?w1)
      = pollyResponse text voiceId opts w"
    by (rule pollyResponse_cong) simp
  show ?thesis
    using assms p p'
    by (auto simp: getAudioWithCache_def Let_def generatePollyAudio_def
        split: option.splits sum.splits if_splits)
qed

lemma getAudioWithCache_succeeds:
  assumes "pollyResponse text voiceId opts w = Inr buf"
  shows "\<exists>r. fst (getAudioWithCache text voiceId opts (c, w)) = Inr r"
proof -
  let ?k = "generateCacheKey text voiceId opts"
  let ?c1 = "snd (checkMemoryCache ?k (clock w) (c\<lparr>totalRequests := totalRequests c + 1\<rparr>))"
  let ?w1 = "snd (checkDiskCache ?k ?c1 w)"
  have p: "pollyResponse text voiceId opts (pollyRequest text voiceId (snd (checkS3Cache ?k ?c1 ?w1)))
      = pollyResponse text voiceId opts w"
    by (rule pollyResponse_cong) simp
  have p': "pollyResponse text voiceId opts (pollyRequest text voiceId ?w1)
      = pollyResponse text voiceId opts w"
    by (rule pollyResponse_cong) simp
  show ?thesis
    using assms p p'
    by (auto simp: getAudioWithCache_def Let_def generatePollyAudio_def
        split: option.splits sum.splits if_splits)
qed

lemma bucketName_frames [simp]:
  "bucketName (snd (checkDiskCache k c w)) = bucketName w"
  "bucketName (snd (checkS3Cache k c w)) = bucketName w"
  "bucketName (pollyRequest t v w) = bucketName w"
  "bucketName (snd (storeToDiskCache k buf cw)) = bucketName (snd cw)"
  by (simp_all add: bucketName_def pollyRequest_def)

lemma getAudioWithCache_generated_put:
  assumes "fst (getAudioWithCache text voiceId opts (c, w)) = Inr r" "source r = ''generated''" "s3Cache c"
  shows "last (s3Log (snd (snd (getAudioWithCache text voiceId opts (c, w)))))
       = PutObject (bucketName w) (s3ObjectKey (cacheKey r)) (audioBuffer r)"
  using assms
  by (auto simp: getAudioWithCache_def Let_def generatePollyAudio_def storeInAllCaches_def
        split: option.splits sum.splits if_splits)


text \<open>Nor does the outcome of the \<open>PutObjectCommand\<close> change what the caller receives.\<close>

lemma getAudioWithCache_fst_s3Put:
  "fst (getAudioWithCache text voiceId opts (c, w\<lparr>s3Put := f\<rparr>))
     = fst (getAudioWithCache text voiceId opts (c, w))"
proof -
  let ?k = "generateCacheKey text voiceId opts"
  let ?c1 = "snd (checkMemoryCache ?k (clock w) (c\<lparr>totalRequests := totalRequests c + 1\<rparr>))"
  have d: "fst (checkDiskCache ?k ?c1 (w\<lparr>s3Put := f\<rparr>)) = fst (checkDiskCache ?k ?c1 w)"
    by (rule checkDiskCache_fst_cong) simp_all
  have s: "fst (checkS3Cache ?k ?c1 (snd (checkDiskCache ?k ?c1 (w\<lparr>s3Put := f\<rparr>))))
      = fst (checkS3Cache ?k ?c1 (snd (checkDiskCache ?k ?c1 w)))"
    by (rule checkS3Cache_fst_cong) simp_all
  have p: "pollyResponse text voiceId opts
        (pollyRequest text voiceId (snd (checkS3Cache ?k ?c1 (snd (checkDiskCache ?k ?c1 (w\<lparr>s3Put := f\<rparr>))))))
      = pollyResponse text voiceId opts
        (pollyRequest text voiceId (snd (checkS3Cache ?k ?c1 (snd (checkDiskCache ?k ?c1 w)))))"
    by (rule pollyResponse_cong) simp
  have p': "pollyResponse text voiceId opts
        (pollyRequest text voiceId (snd (checkDiskCache ?k ?c1 (w\<lparr>s3Put := f\<rparr>))))
      = pollyResponse text voiceId opts
        (pollyRequest text voiceId (snd (checkDiskCache ?k ?c1 w)))"
    by (rule pollyResponse_cong) simp
  show ?thesis
    using d s p p'
    by (simp add: getAudioWithCache_def Let_def generatePollyAudio_def
        split: option.splits sum.splits)
qed

text \<open>
  C8. A \<open>getAudioWithCache\<close> call throws only the error of \<open>generatePollyAudio\<close>, and
  only after every tier has missed (the miss counter has grown, no hit counter has).
  When Polly would answer with audio the call returns a result, whatever the disk and
  the bucket do. Neither a disk that cannot be written nor the outcome of the
  \<open>PutObjectCommand\<close> changes what the caller receives. After a generation the
  \<open>PutObjectCommand\<close> for the remote tier is the last request sent; the call does not
  wait for it, and its error is caught inside \<open>storeToS3Cache\<close>.
\<close>

theorem secondary_store_failures_absorbed:
  "(fst (getAudioWithCache text voiceId opts (c, w)) = Inl e \<longrightarrow>
       pollyResponse text voiceId opts w = Inl e
     \<and> misses (fst (snd (getAudioWithCache text voiceId opts (c, w)))) = misses c + 1
     \<and> memoryHits (fst (snd (getAudioWithCache text voiceId opts (c, w)))) = memoryHits c
     \<and> diskHits (fst (snd (getAudioWithCache text voiceId opts (c, w)))) = diskHits c
     \<and> s3Hits (fst (snd (getAudioWithCache text voiceId opts (c, w)))) = s3Hits c)
   \<and> (pollyResponse text voiceId opts w = Inr buf \<longrightarrow>
        (\<exists>r. fst (getAudioWithCache text voiceId opts (c, w)) = Inr r))
   \<and> fst (getAudioWithCache text voiceId opts (c, w\<lparr>fsWriteFault := True\<rparr>))
        = fst (getAudioWithCache text voiceId opts (c, w))
   \<and> fst (getAudioWithCache text voiceId opts (c, w\<lparr>s3Put := f\<rparr>))
        = fst (getAudioWithCache text voiceId opts (c, w))
   \<and> (fst (getAudioWithCache text voiceId opts (c, w)) = Inr r \<longrightarrow> source r = ''generated''
        \<longrightarrow> s3Cache c \<longrightarrow>
        last (s3Log (snd (snd (getAudioWithCache text voiceId opts (c, w)))))
          = PutObject (bucketName w) (s3ObjectKey (cacheKey r)) (audioBuffer r))"
  (is "(?E \<longrightarrow> ?A) \<and> (?P \<longrightarrow> ?B) \<and> ?C \<and> ?C' \<and> (?R \<longrightarrow> ?S \<longrightarrow> ?T \<longrightarrow> ?D)")
proof -
  have 1: "?E \<longrightarrow> ?A"
  proof
    assume ?E
    then show ?A using getAudioWithCache_error by simp
  qed
  have 2: "?P \<longrightarrow> ?B"
  proof
    assume ?P
    then show ?B by (rule getAudioWithCache_succeeds)
  qed
  have 3: ?C by (rule getAudioWithCache_fst_write_fault)
  have 5: ?C' by (rule getAudioWithCache_fst_s3Put)
  have 4: "?R \<longrightarrow> ?S \<longrightarrow> ?T \<longrightarrow> ?D"
  proof (intro impI)
    assume ?R ?S ?T
    then show ?D by (rule getAudioWithCache_generated_put)
  qed
  from 1 2 3 5 4 show ?thesis by (intro conjI)
qed

theorem secondary_store_failures_absorbed_witness:
  "fst (getAudioWithCache ''Emergency alert'' ''Joanna'' noOptions
         (newCache, quietWorld\<lparr>pollySynthesize := (\<lambda>t v f e. Inl ''ServiceUnavailable'')\<rparr>))
     = Inl (PollyError ''ServiceUnavailable'')
   \<and> misses (fst (snd (getAudioWithCache ''Emergency alert'' ''Joanna'' noOptions
         (newCache, quietWorld\<lparr>pollySynthesize := (\<lambda>t v f e. Inl ''ServiceUnavailable'')\<rparr>)))) = 1
   \<and> pollyResponse ''Emergency alert'' ''Joanna'' noOptions
         (quietWorld\<lparr>fsWriteFault := True, s3Put := (\<lambda>b k d. Some ''SlowDown'')\<rparr>)
     = Inr [1, 2, 3]
   \<and> fst (getAudioWithCache ''Emergency alert'' ''Joanna'' noOptions
         (newCache, quietWorld\<lparr>fsWriteFault := True, s3Put := (\<lambda>b k d. Some ''SlowDown'')\<rparr>))
     = Inr \<lparr>audioBuffer = [1, 2, 3], source = ''generated'',
            cacheKey = generateCacheKey ''Emergency alert'' ''Joanna'' noOptions, fromCache = False\<rparr>
   \<and> fst (storeToS3Cache_try (generateCacheKey ''Emergency alert'' ''Joanna'' noOptions) [1, 2, 3]
         (quietWorld\<lparr>fsWriteFault := True, s3Put := (\<lambda>b k d. Some ''SlowDown'')\<rparr>))
     = Inl (S3Error ''SlowDown'')
   \<and> last (s3Log (snd (snd (getAudioWithCache ''Emergency alert'' ''Joanna'' noOptions
         (newCache, quietWorld\<lparr>fsWriteFault := True, s3Put := (\<lambda>b k d. Some ''SlowDown'')\<rparr>)))))
     = PutObject ''safety-alert-audio-cache''
         (s3ObjectKey (generateCacheKey ''Emergency alert'' ''Joanna'' noOptions)) [1, 2, 3]"
proof -
  let ?wf = "quietWorld\<lparr>pollySynthesize := (\<lambda>t v f e. Inl ''ServiceUnavailable'')\<rparr>"
  let ?wd = "quietWorld\<lparr>fsWriteFault := True, s3Put := (\<lambda>b k d. Some ''SlowDown'')\<rparr>"
  let ?r = "\<lparr>audioBuffer = [1, 2, 3], source = ''generated'',
            cacheKey = generateCacheKey ''Emergency alert'' ''Joanna'' noOptions, fromCache = False\<rparr>"
  have fails: "fst (getAudioWithCache ''Emergency alert'' ''Joanna'' noOptions (newCache, ?wf))
      = Inl (PollyError ''ServiceUnavailable'')"
    by (simp add: eval_defs)
  have gen: "pollyResponse ''Emergency alert'' ''Joanna'' noOptions ?wd = Inr [1, 2, 3]"
    by (simp add: eval_defs)
  have res: "fst (getAudioWithCache ''Emergency alert'' ''Joanna'' noOptions (newCache, ?wd)) = Inr ?r"
    by (simp add: eval_defs)
  have put: "fst (storeToS3Cache_try (generateCacheKey ''Emergency alert'' ''Joanna'' noOptions) [1, 2, 3] ?wd)
      = Inl (S3Error ''SlowDown'')"
    by (simp add: eval_defs)
  have c0: "misses newCache = 0" "s3Cache newCache" "bucketName ?wd = ''safety-alert-audio-cache''"
    by (simp_all add: eval_defs)
  show ?thesis
    using secondary_store_failures_absorbed
        [of "''Emergency alert''" "''Joanna''" noOptions newCache ?wf "PollyError ''ServiceUnavailable''"]
      secondary_store_failures_absorbed
        [of "''Emergency alert''" "''Joanna''" noOptions newCache ?wd _ "[1, 2, 3]" _ ?r]
      fails gen res put c0
    by simp
qed

lemma checkS3Cache_error_is_miss:
  "fst (checkS3Cache_try k c w) = Inl e \<Longrightarrow> fst (checkS3Cache k c w) = None"
  by (cases "checkS3Cache_try k c w") (auto simp: checkS3Cache_def split: error.splits)

lemma checkS3Cache_fault_is_miss:
  "s3Head w (bucketName w) (s3ObjectKey k) = Inl name
     \<or> s3Get w (bucketName w) (s3ObjectKey k) = Inl name
   \<Longrightarrow> fst (checkS3Cache k c w) = None"
  by (auto simp: checkS3Cache_def checkS3Cache_try_def Let_def split: sum.splits)

lemma getAudioWithCache_no_S3Error:
  "fst (getAudioWithCache text voiceId opts (c, w)) \<noteq> Inl (S3Error name)"
proof
  assume "fst (getAudioWithCache text voiceId opts (c, w)) = Inl (S3Error name)"
  then have "pollyResponse text voiceId opts w = Inl (S3Error name)"
    using getAudioWithCache_error by blast
  then show False
    by (simp add: pollyResponse_def split: sum.splits)
qed

lemma getAudioWithCache_remote_fault_falls_through:
  assumes fault: "s3Head w (bucketName w) (s3ObjectKey (generateCacheKey text voiceId opts)) = Inl name
     \<or> s3Get w (bucketName w) (s3ObjectKey (generateCacheKey text voiceId opts)) = Inl name"
    and nomem: "memoryHits (fst (snd (getAudioWithCache text voiceId opts (c, w)))) = memoryHits c"
    and nodisk: "diskHits (fst (snd (getAudioWithCache text voiceId opts (c, w)))) = diskHits c"
  shows "pollyLog (snd (snd (getAudioWithCache text voiceId opts (c, w)))) = pollyLog w @ [(text, voiceId)]
       \<and> (fst (getAudioWithCache text voiceId opts (c, w)) = Inr r \<longrightarrow> source r = ''generated'')"
proof -
  let ?k = "generateCacheKey text voiceId opts"
  let ?c1 = "snd (checkMemoryCache ?k (clock w) (c\<lparr>totalRequests := totalRequests c + 1\<rparr>))"
  let ?w1 = "snd (checkDiskCache ?k ?c1 w)"
  have "s3Head ?w1 (bucketName ?w1) (s3ObjectKey ?k) = Inl name
     \<or> s3Get ?w1 (bucketName ?w1) (s3ObjectKey ?k) = Inl name"
    using fault by simp
  then have miss: "fst (checkS3Cache ?k ?c1 ?w1) = None"
    by (rule checkS3Cache_fault_is_miss)
  show ?thesis
    using nomem nodisk miss
    by (auto simp: getAudioWithCache_def Let_def generatePollyAudio_def
        split: option.splits sum.splits if_splits)
qed


text \<open>
  C10. Every error thrown inside \<open>checkS3Cache\<close>, whatever its name, makes the probe
  return \<open>null\<close>; \<open>getAudioWithCache\<close> never throws an S3 error; and when the
  \<open>HeadObjectCommand\<close> or the \<open>GetObjectCommand\<close> fails for the key, a call that is not
  served by the memory or the disk tier sends one request to Polly and, if it returns,
  returns generated audio.
\<close>

theorem remote_read_errors_are_misses:
  "(fst (checkS3Cache_try k c w) = Inl e \<longrightarrow> fst (checkS3Cache k c w) = None)
   \<and> fst (getAudioWithCache text voiceId opts (c, w)) \<noteq> Inl (S3Error name)
   \<and> (s3Head w (bucketName w) (s3ObjectKey (generateCacheKey text voiceId opts)) = Inl name
        \<or> s3Get w (bucketName w) (s3ObjectKey (generateCacheKey text voiceId opts)) = Inl name
      \<longrightarrow> fst (checkS3Cache (generateCacheKey text voiceId opts) c w) = None
        \<and> (memoryHits (fst (snd (getAudioWithCache text voiceId opts (c, w)))) = memoryHits c
           \<longrightarrow> diskHits (fst (snd (getAudioWithCache text voiceId opts (c, w)))) = diskHits c
           \<longrightarrow> pollyLog (snd (snd (getAudioWithCache text voiceId opts (c, w))))
                 = pollyLog w @ [(text, voiceId)]
               \<and> (fst (getAudioWithCache text voiceId opts (c, w)) = Inr r
                    \<longrightarrow> source r = ''generated'')))"
  (is "(?E \<longrightarrow> ?A) \<and> ?B \<and> (?F \<longrightarrow> ?M \<and> (?H1 \<longrightarrow> ?H2 \<longrightarrow> ?G))")
proof -
  have 1: "?E \<longrightarrow> ?A"
  proof
    assume ?E
    then show ?A by (rule checkS3Cache_error_is_miss)
  qed
  have 2: ?B by (rule getAudioWithCache_no_S3Error)
  have 3: "?F \<longrightarrow> ?M \<and> (?H1 \<longrightarrow> ?H2 \<longrightarrow> ?G)"
  proof (intro impI conjI)
    assume ?F
    then show ?M by (rule checkS3Cache_fault_is_miss)
  next
    assume f: ?F and ?H1 ?H2
    then show "pollyLog (snd (snd (getAudioWithCache text voiceId opts (c, w))))
                 = pollyLog w @ [(text, voiceId)]"
      using getAudioWithCache_remote_fault_falls_through [OF f] by simp
  next
    assume f: ?F and ?H1 ?H2 and "fst (getAudioWithCache text voiceId opts (c, w)) = Inr r"
    then show "source r = ''generated''"
      using getAudioWithCache_remote_fault_falls_through [OF f] by simp
  qed
  from 1 2 3 show ?thesis by (intro conjI)
qed

theorem remote_read_errors_are_misses_witness:
  "fst (checkS3Cache_try (generateCacheKey ''Emergency alert'' ''Joanna'' noOptions) newCache
          (quietWorld\<lparr>s3Head := (\<lambda>b k. Inl ''AccessDenied'')\<rparr>)) = Inl (S3Error ''AccessDenied'')
   \<and> fst (checkS3Cache (generateCacheKey ''Emergency alert'' ''Joanna'' noOptions) newCache
          (quietWorld\<lparr>s3Head := (\<lambda>b k. Inl ''AccessDenied'')\<rparr>)) = None
   \<and> fst (getAudioWithCache ''Emergency alert'' ''Joanna'' noOptions
          (newCache, quietWorld\<lparr>s3Head := (\<lambda>b k. Inl ''AccessDenied'')\<rparr>))
      = Inr \<lparr>audioBuffer = [1, 2, 3], source = ''generated'',
             cacheKey = generateCacheKey ''Emergency alert'' ''Joanna'' noOptions, fromCache = False\<rparr>
   \<and> pollyLog (snd (snd (getAudioWithCache ''Emergency alert'' ''Joanna'' noOptions
          (newCache, quietWorld\<lparr>s3Head := (\<lambda>b k. Inl ''AccessDenied'')\<rparr>))))
      = [(''Emergency alert'', ''Joanna'')]"
proof -
  let ?w = "quietWorld\<lparr>s3Head := (\<lambda>b k. Inl ''AccessDenied'')\<rparr>"
  let ?k = "generateCacheKey ''Emergency alert'' ''Joanna'' noOptions"
  let ?r = "\<lparr>audioBuffer = [1, 2, 3], source = ''generated'', cacheKey = ?k, fromCache = False\<rparr>"
  have thrown: "fst (checkS3Cache_try ?k newCache ?w) = Inl (S3Error ''AccessDenied'')"
    by (simp add: eval_defs)
  have fault: "s3Head ?w (bucketName ?w) (s3ObjectKey ?k) = Inl ''AccessDenied''"
    by (simp add: eval_defs)
  have res: "fst (getAudioWithCache ''Emergency alert'' ''Joanna'' noOptions (newCache, ?w)) = Inr ?r"
    by (simp add: eval_defs)
  have hits: "memoryHits (fst (snd (getAudioWithCache ''Emergency alert'' ''Joanna'' noOptions
          (newCache, ?w)))) = memoryHits newCache"
     "diskHits (fst (snd (getAudioWithCache ''Emergency alert'' ''Joanna'' noOptions
          (newCache, ?w)))) = diskHits newCache"
    by (simp_all add: eval_defs)
  have log0: "pollyLog ?w = []" by (simp add: quietWorld_def)
  show ?thesis
    using remote_read_errors_are_misses
        [of ?k newCache ?w "S3Error ''AccessDenied''" "''Emergency alert''" "''Joanna''" noOptions
            "''AccessDenied''" ?r]
      thrown fault res hits log0
    by simp
qed

section \<open>Health checks and failover\<close>

lemma updateService_other:
  "s' \<noteq> s \<Longrightarrow>
     consecutiveFailures (fst (updateService s r mw)) s' = consecutiveFailures (fst mw) s'
   \<and> serviceStatus (fst (updateService s r mw)) s' = serviceStatus (fst mw) s'
   \<and> count_list (failovers (fst (updateService s r mw))) s' = count_list (failovers (fst mw)) s'"
  by (simp add: updateService_def triggerFailover_def Let_def)

lemma updateService_threshold [simp]:
  "failoverThreshold (fst (updateService s r mw)) = failoverThreshold (fst mw)"
  by (simp add: updateService_def triggerFailover_def Let_def)

lemma updateService_self:
  "consecutiveFailures (fst (updateService s r mw)) s
     = (if healthy r then 0 else consecutiveFailures (fst mw) s + 1)
   \<and> serviceStatus (fst (updateService s r mw)) s
     = (if healthy r then Healthy
        else if consecutiveFailures (fst mw) s + 1 \<ge> failoverThreshold (fst mw) then Failed
        else Degraded)
   \<and> count_list (failovers (fst (updateService s r mw))) s
     = count_list (failovers (fst mw)) s
       + (if \<not> healthy r \<and> consecutiveFailures (fst mw) s + 1 \<ge> failoverThreshold (fst mw)
          then 1 else 0)"
  by (simp add: updateService_def triggerFailover_def Let_def)

text \<open>
  C3, amended. For each of the four services \<open>performHealthCheck\<close> checks, one round does
  the following. A failed check adds one to the service's counter; the status becomes
  \<open>degraded\<close> while the new count is below \<open>failoverThreshold\<close> and \<open>failed\<close> once it
  is at or above it, and \<open>triggerFailover\<close> is called for the service in every round in
  which the new count is at or above the threshold: on the round that enters \<open>failed\<close>
  and again on each further consecutive failure. A successful check sets the counter to 0
  and the status to \<open>healthy\<close>, and triggers nothing.
\<close>

theorem health_state_machine:
  assumes "s \<in> {Polly, Transcribe, S3Cache, CloudFront}"
  shows "consecutiveFailures (fst (performHealthCheck results mw)) s
     = (if healthy (results s) then 0 else consecutiveFailures (fst mw) s + 1)
   \<and> serviceStatus (fst (performHealthCheck results mw)) s
     = (if healthy (results s) then Healthy
        else if consecutiveFailures (fst mw) s + 1 \<ge> failoverThreshold (fst mw) then Failed
        else Degraded)
   \<and> count_list (failovers (fst (performHealthCheck results mw))) s
     = count_list (failovers (fst mw)) s
       + (if \<not> healthy (results s) \<and> consecutiveFailures (fst mw) s + 1 \<ge> failoverThreshold (fst mw)
          then 1 else 0)"
  using assms
  by (auto simp: performHealthCheck_def updateService_self updateService_other)

theorem health_state_machine_witness:
  "S3Cache \<in> {Polly, Transcribe, S3Cache, CloudFront}
   \<and> consecutiveFailures (fst (healthRounds [s3Down, s3Down] (newMonitor, quietWorld))) S3Cache = 2
   \<and> serviceStatus (fst (healthRounds [s3Down, s3Down] (newMonitor, quietWorld))) S3Cache = Degraded
   \<and> consecutiveFailures
        (fst (performHealthCheck s3Down (healthRounds [s3Down, s3Down] (newMonitor, quietWorld)))) S3Cache = 3
   \<and> serviceStatus
        (fst (performHealthCheck s3Down (healthRounds [s3Down, s3Down] (newMonitor, quietWorld)))) S3Cache = Failed
   \<and> count_list (failovers
        (fst (performHealthCheck s3Down (healthRounds [s3Down, s3Down] (newMonitor, quietWorld))))) S3Cache = 1
   \<and> consecutiveFailures
        (fst (performHealthCheck allUp (healthRounds [s3Down, s3Down, s3Down] (newMonitor, quietWorld)))) S3Cache = 0
   \<and> serviceStatus
        (fst (performHealthCheck allUp (healthRounds [s3Down, s3Down, s3Down] (newMonitor, quietWorld)))) S3Cache = Healthy"
proof -
  have two: "consecutiveFailures (fst (healthRounds [s3Down, s3Down] (newMonitor, quietWorld))) S3Cache = 2"
    "serviceStatus (fst (healthRounds [s3Down, s3Down] (newMonitor, quietWorld))) S3Cache = Degraded"
    "failoverThreshold (fst (healthRounds [s3Down, s3Down] (newMonitor, quietWorld))) = 3"
    "failovers (fst (healthRounds [s3Down, s3Down] (newMonitor, quietWorld))) = []"
    by (simp_all add: performHealthCheck_def updateService_def triggerFailover_def s3Down_def
      newMonitor_def Let_def)
  have down: "\<not> healthy (s3Down S3Cache)" and up: "healthy (allUp S3Cache)"
    by (simp_all add: s3Down_def allUp_def)
  have mem: "S3Cache \<in> {Polly, Transcribe, S3Cache, CloudFront}" by simp
  show ?thesis
    using health_state_machine [OF mem, of s3Down "healthRounds [s3Down, s3Down] (newMonitor, quietWorld)"]
      health_state_machine [OF mem, of allUp "healthRounds [s3Down, s3Down, s3Down] (newMonitor, quietWorld)"]
      two down up
    by simp
qed

text \<open>
  C3 as stated fails: after three consecutive failures of the \<open>s3-cache\<close> check the
  status is \<open>failed\<close> and the failover has been triggered once; the fourth failure
  triggers it a second time.
\<close>

theorem failover_repeats_counterexample:
  "serviceStatus (fst (healthRounds [s3Down, s3Down, s3Down] (newMonitor, quietWorld))) S3Cache = Failed
   \<and> failovers (fst (healthRounds [s3Down, s3Down, s3Down] (newMonitor, quietWorld))) = [S3Cache]
   \<and> serviceStatus (fst (healthRounds [s3Down, s3Down, s3Down, s3Down] (newMonitor, quietWorld))) S3Cache
       = Failed
   \<and> failovers (fst (healthRounds [s3Down, s3Down, s3Down, s3Down] (newMonitor, quietWorld)))
       = [S3Cache, S3Cache]"
  by (simp add: performHealthCheck_def updateService_def triggerFailover_def s3Down_def
      newMonitor_def quietWorld_def s3Failover_def sendFailoverAlert_def Let_def)

lemma bucketName_s3Failover [simp]: "bucketName (s3Failover w) = bucketName w"
  by (simp add: bucketName_def s3Failover_def)

lemma checkS3Cache_fst_cong_bucket:
  "s3Head w' = s3Head w \<Longrightarrow> s3Get w' = s3Get w \<Longrightarrow> bucketName w' = bucketName w
     \<Longrightarrow> clock w' = clock w \<Longrightarrow> cacheExpiry c' = cacheExpiry c
     \<Longrightarrow> fst (checkS3Cache k c' w') = fst (checkS3Cache k c w)"
  by (simp add: checkS3Cache_def checkS3Cache_try_def Let_def
      split: sum.splits error.splits)

text \<open>What \<open>s3Failover\<close> writes is not read by the lookup.\<close>

lemma getAudioWithCache_ignores_s3Failover:
  "fst (getAudioWithCache text voiceId opts (c, s3Failover w))
     = fst (getAudioWithCache text voiceId opts (c, w))"
proof -
  let ?k = "generateCacheKey text voiceId opts"
  let ?c1 = "snd (checkMemoryCache ?k (clock w) (c\<lparr>totalRequests := totalRequests c + 1\<rparr>))"
  have f [simp]: "clock (s3Failover w) = clock w" "s3Head (s3Failover w) = s3Head w"
    "s3Get (s3Failover w) = s3Get w" "pollySynthesize (s3Failover w) = pollySynthesize w"
    "mp3Files (s3Failover w) = mp3Files w" "metaFiles (s3Failover w) = metaFiles w"
    "fsReadFault (s3Failover w) = fsReadFault w"
    by (simp_all add: s3Failover_def)
  have d: "fst (checkDiskCache ?k ?c1 (s3Failover w)) = fst (checkDiskCache ?k ?c1 w)"
    by (rule checkDiskCache_fst_cong) simp_all
  have s: "fst (checkS3Cache ?k ?c1 (snd (checkDiskCache ?k ?c1 (s3Failover w))))
      = fst (checkS3Cache ?k ?c1 (snd (checkDiskCache ?k ?c1 w)))"
    by (rule checkS3Cache_fst_cong_bucket) simp_all
  have p: "pollyResponse text voiceId opts
        (pollyRequest text voiceId (snd (checkS3Cache ?k ?c1 (snd (checkDiskCache ?k ?c1 (s3Failover w))))))
      = pollyResponse text voiceId opts
        (pollyRequest text voiceId (snd (checkS3Cache ?k ?c1 (snd (checkDiskCache ?k ?c1 w)))))"
    by (rule pollyResponse_cong) simp
  have p': "pollyResponse text voiceId opts
        (pollyRequest text voiceId (snd (checkDiskCache ?k ?c1 (s3Failover w))))
      = pollyResponse text voiceId opts
        (pollyRequest text voiceId (snd (checkDiskCache ?k ?c1 w)))"
    by (rule pollyResponse_cong) simp
  show ?thesis
    using d s p p'
    by (simp add: getAudioWithCache_def Let_def generatePollyAudio_def
        split: option.splits sum.splits)
qed

text \<open>
  C9. Three failed checks of \<open>s3-cache\<close> put the service into \<open>failed\<close> and run
  \<open>s3Failover\<close>, which sets \<open>USE_S3_CACHE\<close> to \<open>false\<close> and \<open>CACHE_MODE\<close> to
  \<open>memory_only\<close> in \<open>process.env\<close>. A lookup made afterwards on a cache with empty
  memory and disk tiers still sends the \<open>HeadObjectCommand\<close> and the \<open>GetObjectCommand\<close>
  and answers from the remote tier; when the bucket has no object for the key, the
  lookup sends the \<open>HeadObjectCommand\<close> and, after generating, the \<open>PutObjectCommand\<close>.
  \<open>getAudioWithCache\<close> tests \<open>this.s3Cache\<close>, which is \<open>true\<close> from the constructor
  on, and reads neither variable.
\<close>

theorem remote_probe_after_s3_failover:
  "serviceStatus (fst (healthRounds [s3Down, s3Down, s3Down] (newMonitor, remoteHitWorld))) S3Cache = Failed
   \<and> env (snd (healthRounds [s3Down, s3Down, s3Down] (newMonitor, remoteHitWorld))) ''USE_S3_CACHE''
       = Some ''false''
   \<and> env (snd (healthRounds [s3Down, s3Down, s3Down] (newMonitor, remoteHitWorld))) ''CACHE_MODE''
       = Some ''memory_only''
   \<and> fst (getAudioWithCache ''Emergency alert'' ''Joanna'' noOptions
        (newCache, snd (healthRounds [s3Down, s3Down, s3Down] (newMonitor, remoteHitWorld))))
       = Inr \<lparr>audioBuffer = [7], source = ''s3'',
              cacheKey = generateCacheKey ''Emergency alert'' ''Joanna'' noOptions, fromCache = True\<rparr>
   \<and> s3Log (snd (snd (getAudioWithCache ''Emergency alert'' ''Joanna'' noOptions
        (newCache, snd (healthRounds [s3Down, s3Down, s3Down] (newMonitor, remoteHitWorld))))))
       = [HeadObject ''safety-alert-audio-cache''
            (s3ObjectKey (generateCacheKey ''Emergency alert'' ''Joanna'' noOptions)),
          GetObject ''safety-alert-audio-cache''
            (s3ObjectKey (generateCacheKey ''Emergency alert'' ''Joanna'' noOptions))]
   \<and> env (snd (healthRounds [s3Down, s3Down, s3Down] (newMonitor, quietWorld))) ''USE_S3_CACHE''
       = Some ''false''
   \<and> s3Log (snd (snd (getAudioWithCache ''Emergency alert'' ''Joanna'' noOptions
        (newCache, snd (healthRounds [s3Down, s3Down, s3Down] (newMonitor, quietWorld))))))
       = [HeadObject ''safety-alert-audio-cache''
            (s3ObjectKey (generateCacheKey ''Emergency alert'' ''Joanna'' noOptions)),
          PutObject ''safety-alert-audio-cache''
            (s3ObjectKey (generateCacheKey ''Emergency alert'' ''Joanna'' noOptions)) [1, 2, 3]]"
proof -
  have w: "snd (healthRounds [s3Down, s3Down, s3Down] (newMonitor, remoteHitWorld))
      = s3Failover remoteHitWorld"
    by (simp add: performHealthCheck_def updateService_def triggerFailover_def s3Down_def
      newMonitor_def remoteHitWorld_def quietWorld_def sendFailoverAlert_def s3Failover_def Let_def)
  have q: "snd (healthRounds [s3Down, s3Down, s3Down] (newMonitor, quietWorld))
      = s3Failover quietWorld"
    by (simp add: performHealthCheck_def updateService_def triggerFailover_def s3Down_def
      newMonitor_def quietWorld_def sendFailoverAlert_def s3Failover_def Let_def)
  have m: "serviceStatus (fst (healthRounds [s3Down, s3Down, s3Down] (newMonitor, remoteHitWorld))) S3Cache
      = Failed"
    by (simp add: performHealthCheck_def updateService_def triggerFailover_def s3Down_def
      newMonitor_def Let_def)
  show ?thesis
    unfolding w q using m
    by (simp add: s3Failover_def remoteHitWorld_def eval_defs)
qed

section \<open>Key derivation: normalisation and key format\<close>

text \<open>The padded message is a whole number of 64-byte blocks, each of sixteen words.\<close>

lemma md5_pad_arith: "(n + 9 + (119 - n mod 64) mod 64) mod 64 = (0 :: nat)"
proof -
  define r where "r = n mod 64"
  define q where "q = n div 64"
  have r: "r < 64" by (simp add: r_def)
  have n: "n = 64 * q + r" by (simp add: r_def q_def)
  have "(n + 9 + (119 - r) mod 64) mod 64 = 0"
  proof (cases "r \<le> 55")
    case True
    then have "119 - r = 64 + (55 - r)" by arith
    then have "(119 - r) mod 64 = (64 + (55 - r)) mod 64" by (rule arg_cong)
    also have "\<dots> = 55 - r" by simp
    finally have m: "(119 - r) mod 64 = 55 - r" .
    have e: "n + 9 + (55 - r) = 64 * (q + 1)" using n True by arith
    have "(n + 9 + (119 - r) mod 64) mod 64 = (64 * (q + 1)) mod 64"
      by (simp only: m e)
    then show ?thesis by simp
  next
    case False
    then have m: "(119 - r) mod 64 = 119 - r" using r by simp
    have e: "n + 9 + (119 - r) = 64 * (q + 2)" using n r False by arith
    have "(n + 9 + (119 - r) mod 64) mod 64 = (64 * (q + 2)) mod 64"
      by (simp only: m e)
    then show ?thesis by simp
  qed
  then show ?thesis by (simp only: r_def)
qed

lemma length_md5_pad: "length (md5_pad msg) mod 64 = 0"
proof -
  have "length (md5_pad msg) = length msg + 9 + (119 - length msg mod 64) mod 64"
    by (simp add: md5_pad_def le_bytes_def)
  then show ?thesis by (simp only: md5_pad_arith)
qed

lemma length_words_of: "length (words_of n bs) = n"
  by (induction n arbitrary: bs) simp_all














section \<open>Calls in flight together: who generates\<close>

lemmas step_defs = run_def step_def stepCaller_def newCaller_def twoCallers_def

text \<open>
  C1 as stated fails. Two calls with the same arguments are made on a new cache; each
  is resumed in turn. Both pass the memory and disk probes before either stores
  anything, both miss in the bucket, both send a request to Polly: the generator is
  invoked twice, and each call returns the audio of its own request.
\<close>

theorem two_concurrent_callers_generate_twice:
  "map c_pc (callers (run [0, 1, 0, 1, 0, 1, 0, 1] twoCallers))
     = [Finished (Inr \<lparr>audioBuffer = [1, 2, 3], source = ''generated'',
                cacheKey = generateCacheKey ''Emergency alert'' ''Joanna'' noOptions, fromCache = False\<rparr>),
        Finished (Inr \<lparr>audioBuffer = [1, 2, 3], source = ''generated'',
                cacheKey = generateCacheKey ''Emergency alert'' ''Joanna'' noOptions, fromCache = False\<rparr>)]
   \<and> pollyLog (snd (shared (run [0, 1, 0, 1, 0, 1, 0, 1] twoCallers)))
     = [(''Emergency alert'', ''Joanna''), (''Emergency alert'', ''Joanna'')]"
  by (simp add: step_defs eval_defs)


lemma stepCaller_invoked:
  "length (pollyLog (snd (snd (stepCaller p cw)))) + (if invoked p then 1 else 0)
     = length (pollyLog (snd cw)) + (if invoked (fst (stepCaller p cw)) then 1 else 0)"
proof (cases "c_pc p")
  case Start
  then show ?thesis
    by (simp add: stepCaller_def invoked_def Let_def split: option.splits)
next
  case (AwaitDisk r)
  then show ?thesis
    by (simp add: stepCaller_def invoked_def Let_def split: option.splits)
next
  case AwaitS3
  then show ?thesis
    by (simp add: stepCaller_def invoked_def Let_def split: option.splits)
next
  case AwaitPolly
  then show ?thesis
    by (simp add: stepCaller_def invoked_def Let_def split: sum.splits)
next
  case (Finished r)
  then show ?thesis
    by (simp add: stepCaller_def invoked_def Let_def)
qed

lemma count_list_update:
  "i < length xs \<Longrightarrow>
     length (filter P (xs[i := y])) + (if P (xs ! i) then 1 else 0)
       = length (filter P xs) + (if P y then 1 else 0)"
proof (induction xs arbitrary: i)
  case Nil
  then show ?case by simp
next
  case (Cons x xs)
  then show ?case by (cases i) auto
qed

lemma step_invoked:
  "length (pollyLog (snd (shared (step cfg i)))) + length (filter invoked (callers cfg))
     = length (pollyLog (snd (shared cfg))) + length (filter invoked (callers (step cfg i)))"
proof (cases "i < length (callers cfg)")
  case False
  then show ?thesis by (simp add: step_def)
next
  case True
  let ?p = "callers cfg ! i"
  let ?r = "stepCaller ?p (shared cfg)"
  have a: "length (pollyLog (snd (snd ?r))) + (if invoked ?p then 1 else 0)
     = length (pollyLog (snd (shared cfg))) + (if invoked (fst ?r) then 1 else 0)"
    by (rule stepCaller_invoked)
  have b: "length (filter invoked ((callers cfg)[i := fst ?r])) + (if invoked ?p then 1 else 0)
       = length (filter invoked (callers cfg)) + (if invoked (fst ?r) then 1 else 0)"
    using True by (rule count_list_update)
  have c: "step cfg i = \<lparr> callers = (callers cfg)[i := fst ?r], shared = snd ?r \<rparr>"
    using True by (simp add: step_def Let_def)
  show ?thesis
    unfolding c using a b by (simp split: if_splits)
qed

lemma run_invoked:
  "length (pollyLog (snd (shared (run sched cfg)))) + length (filter invoked (callers cfg))
     = length (pollyLog (snd (shared cfg))) + length (filter invoked (callers (run sched cfg)))"
proof (induction sched arbitrary: cfg)
  case Nil
  then show ?case by (simp add: run_def)
next
  case (Cons i sched)
  have "run (i # sched) cfg = run sched (step cfg i)" by (simp add: run_def)
  then show ?case
    using Cons.IH [of "step cfg i"] step_invoked [of cfg i] by simp
qed

lemma length_callers_step [simp]: "length (callers (step cfg i)) = length (callers cfg)"
  by (simp add: step_def Let_def)

lemma length_callers_run [simp]: "length (callers (run sched cfg)) = length (callers cfg)"
proof (induction sched arbitrary: cfg)
  case Nil
  then show ?case by (simp add: run_def)
next
  case (Cons i sched)
  have "run (i # sched) cfg = run sched (step cfg i)" by (simp add: run_def)
  then show ?case using Cons.IH [of "step cfg i"] by simp
qed

lemma storeInAllCaches_pollySynthesize [simp]:
  "pollySynthesize (snd (storeInAllCaches k buf cw)) = pollySynthesize (snd cw)"
  by (simp add: storeInAllCaches_def Let_def storeToDiskCache_def removeDiskCacheEntry_def)

lemma storeToDiskCache_pollySynthesize [simp]:
  "pollySynthesize (snd (storeToDiskCache k buf cw)) = pollySynthesize (snd cw)"
  by (simp add: storeToDiskCache_def Let_def removeDiskCacheEntry_def)

lemma stepCaller_pollySynthesize [simp]:
  "pollySynthesize (snd (snd (stepCaller p cw))) = pollySynthesize (snd cw)"
  by (cases "c_pc p")
     (simp_all add: stepCaller_def Let_def split: option.splits sum.splits)

lemma stepCaller_args [simp]:
  "c_text (fst (stepCaller p cw)) = c_text p"
  "c_voiceId (fst (stepCaller p cw)) = c_voiceId p"
  "c_options (fst (stepCaller p cw)) = c_options p"
  by (cases "c_pc p"; simp add: stepCaller_def Let_def split: option.splits sum.splits)+

lemma stepCaller_ownAudio:
  assumes own: "ownAudio w0 p" and same: "pollySynthesize (snd cw) = pollySynthesize w0"
  shows "ownAudio w0 (fst (stepCaller p cw))"
proof -
  have resp: "pollyResponse (c_text p) (c_voiceId p) (c_options p) (snd cw)
      = pollyResponse (c_text p) (c_voiceId p) (c_options p) w0"
    using same by (rule pollyResponse_cong)
  show ?thesis
  proof (cases "c_pc p")
    case Start
    then show ?thesis
      by (simp add: stepCaller_def ownAudio_def Let_def split: option.splits)
  next
    case (AwaitDisk r)
    then show ?thesis
      by (simp add: stepCaller_def ownAudio_def Let_def split: option.splits)
  next
    case AwaitS3
    then show ?thesis
      by (simp add: stepCaller_def ownAudio_def Let_def split: option.splits)
  next
    case AwaitPolly
    then show ?thesis
      using resp by (simp add: stepCaller_def ownAudio_def Let_def split: sum.splits)
  next
    case (Finished r)
    then show ?thesis
      using own by (simp add: stepCaller_def)
  qed
qed

lemma step_ownAudio:
  assumes "\<forall>p \<in> set (callers cfg). ownAudio w0 p"
    and "pollySynthesize (snd (shared cfg)) = pollySynthesize w0"
  shows "(\<forall>p \<in> set (callers (step cfg i)). ownAudio w0 p)
       \<and> pollySynthesize (snd (shared (step cfg i))) = pollySynthesize w0"
proof (cases "i < length (callers cfg)")
  case False
  with assms show ?thesis by (simp add: step_def)
next
  case True
  let ?r = "stepCaller (callers cfg ! i) (shared cfg)"
  have "ownAudio w0 (callers cfg ! i)" using assms(1) True by simp
  then have new: "ownAudio w0 (fst ?r)" using assms(2) by (rule stepCaller_ownAudio)
  have "set ((callers cfg)[i := fst ?r]) \<subseteq> insert (fst ?r) (set (callers cfg))"
    by (rule set_update_subset_insert)
  then have "\<forall>p \<in> set ((callers cfg)[i := fst ?r]). ownAudio w0 p"
    using new assms(1) by auto
  then show ?thesis
    using True assms(2) by (simp add: step_def Let_def)
qed

lemma run_ownAudio:
  "\<forall>p \<in> set (callers cfg). ownAudio w0 p \<Longrightarrow> pollySynthesize (snd (shared cfg)) = pollySynthesize w0
     \<Longrightarrow> \<forall>p \<in> set (callers (run sched cfg)). ownAudio w0 p"
proof (induction sched arbitrary: cfg)
  case Nil
  then show ?case by (simp add: run_def)
next
  case (Cons i sched)
  have r: "run (i # sched) cfg = run sched (step cfg i)" by (simp add: run_def)
  have "(\<forall>p \<in> set (callers (step cfg i)). ownAudio w0 p)
       \<and> pollySynthesize (snd (shared (step cfg i))) = pollySynthesize w0"
    using Cons.prems by (rule step_ownAudio)
  then show ?case unfolding r using Cons.IH by blast
qed

text \<open>After any schedule, the requests sent to Polly are as many as the calls that have
  reached generation, and a call that has returned generated audio has returned Polly's
  answer to its own arguments.\<close>

lemma generations_counted:
  assumes start: "\<forall>p \<in> set (callers cfg). c_pc p = Start"
  shows "length (pollyLog (snd (shared (run sched cfg))))
           = length (pollyLog (snd (shared cfg))) + length (filter invoked (callers (run sched cfg)))
       \<and> ((\<forall>p \<in> set (callers (run sched cfg)). invoked p) \<longrightarrow>
            length (pollyLog (snd (shared (run sched cfg))))
              = length (pollyLog (snd (shared cfg))) + length (callers cfg))
       \<and> (\<forall>p \<in> set (callers (run sched cfg)). ownAudio (snd (shared cfg)) p)"
proof -
  have "filter invoked (callers cfg) = []"
    using start by (auto simp: filter_empty_conv invoked_def)
  then have eq: "length (pollyLog (snd (shared (run sched cfg))))
           = length (pollyLog (snd (shared cfg))) + length (filter invoked (callers (run sched cfg)))"
    using run_invoked [of sched cfg] by simp
  have all: "length (filter invoked (callers (run sched cfg))) = length (callers cfg)"
    if "\<forall>p \<in> set (callers (run sched cfg)). invoked p"
  proof -
    from that have "filter invoked (callers (run sched cfg)) = callers (run sched cfg)"
      by (simp add: filter_id_conv)
    then show ?thesis by simp
  qed
  have "\<forall>p \<in> set (callers cfg). ownAudio (snd (shared cfg)) p"
    using start by (simp add: ownAudio_def)
  then have own: "\<forall>p \<in> set (callers (run sched cfg)). ownAudio (snd (shared cfg)) p"
    by (rule run_ownAudio) simp
  from eq all own show ?thesis by simp
qed

text \<open>\<open>N\<close> calls with the same arguments, resumed in step from a state in which every tier
  misses, all generate.\<close>

lemma run_append: "run (xs @ ys) cfg = run ys (run xs cfg)"
  by (simp add: run_def)

lemma replicate_update_next:
  assumes "i < n"
  shows "(replicate i b @ replicate (n - i) a)[i := b] = replicate (Suc i) b @ replicate (n - Suc i) a"
proof -
  have "replicate (n - i) a = a # replicate (n - Suc i) a"
    using assms by (cases "n - i") (auto simp: Suc_diff_Suc)
  then have "(replicate i b @ replicate (n - i) a)[i := b] = replicate i b @ b # replicate (n - Suc i) a"
    by (simp add: list_update_append)
  also have "\<dots> = replicate (Suc i) b @ replicate (n - Suc i) a"
    by (simp add: replicate_append_same)
  finally show ?thesis .
qed

lemma replicate_nth_next:
  assumes "i < n"
  shows "(replicate i b @ replicate (n - i) a) ! i = a"
  using assms by (simp add: nth_append)

lemma phase_prefix:
  assumes stp: "\<And>s. P s \<Longrightarrow> fst (stepCaller a s) = b \<and> P (snd (stepCaller a s))"
    and P0: "P s0"
  shows "i \<le> n \<Longrightarrow> \<exists>s. run [0..<i] \<lparr>callers = replicate n a, shared = s0\<rparr>
             = \<lparr>callers = replicate i b @ replicate (n - i) a, shared = s\<rparr> \<and> P s"
proof (induction i)
  case 0
  then show ?case using P0 by (simp add: run_def)
next
  case (Suc i)
  then obtain s where s: "run [0..<i] \<lparr>callers = replicate n a, shared = s0\<rparr>
             = \<lparr>callers = replicate i b @ replicate (n - i) a, shared = s\<rparr>" and Ps: "P s"
    by auto
  have lt: "i < n" using Suc.prems by simp
  have st: "fst (stepCaller a s) = b" "P (snd (stepCaller a s))"
    using stp [OF Ps] by simp_all
  have "run [0..<Suc i] \<lparr>callers = replicate n a, shared = s0\<rparr>
      = step \<lparr>callers = replicate i b @ replicate (n - i) a, shared = s\<rparr> i"
    using s by (simp add: run_append) (simp add: run_def)
  also have "\<dots> = \<lparr>callers = replicate (Suc i) b @ replicate (n - Suc i) a,
                     shared = snd (stepCaller a s)\<rparr>"
    using lt st(1) replicate_update_next [OF lt, of b a] replicate_nth_next [OF lt, of b a]
    by (simp add: step_def Let_def)
  finally show ?case using st(2) by blast
qed

lemma phase:
  assumes "\<And>s. P s \<Longrightarrow> fst (stepCaller a s) = b \<and> P (snd (stepCaller a s))" and "P s0"
  shows "\<exists>s. run [0..<n] \<lparr>callers = replicate n a, shared = s0\<rparr>
             = \<lparr>callers = replicate n b, shared = s\<rparr> \<and> P s"
  using phase_prefix [of P a b s0 n n, OF assms] by simp


lemma allMiss_Start:
  assumes "allMiss (generateCacheKey text voiceId opts) text voiceId opts buf s"
  shows "fst (stepCaller (newCaller text voiceId opts) s)
           = (newCaller text voiceId opts)\<lparr>c_pc := AwaitDisk None\<rparr>
       \<and> allMiss (generateCacheKey text voiceId opts) text voiceId opts buf
           (snd (stepCaller (newCaller text voiceId opts) s))"
  using assms
  by (simp add: allMiss_def stepCaller_def newCaller_def checkMemoryCache_def checkDiskCache_def
      checkDiskCache_try_def Let_def)

lemma allMiss_AwaitDisk:
  assumes "allMiss (generateCacheKey text voiceId opts) text voiceId opts buf s"
  shows "fst (stepCaller ((newCaller text voiceId opts)\<lparr>c_pc := AwaitDisk None\<rparr>) s)
           = (newCaller text voiceId opts)\<lparr>c_pc := AwaitS3\<rparr>
       \<and> allMiss (generateCacheKey text voiceId opts) text voiceId opts buf
           (snd (stepCaller ((newCaller text voiceId opts)\<lparr>c_pc := AwaitDisk None\<rparr>) s))"
  using assms
  by (simp add: allMiss_def stepCaller_def newCaller_def Let_def)

lemma allMiss_AwaitS3:
  assumes "allMiss (generateCacheKey text voiceId opts) text voiceId opts buf s"
  shows "fst (stepCaller ((newCaller text voiceId opts)\<lparr>c_pc := AwaitS3\<rparr>) s)
           = (newCaller text voiceId opts)\<lparr>c_pc := AwaitPolly\<rparr>
       \<and> allMiss (generateCacheKey text voiceId opts) text voiceId opts buf
           (snd (stepCaller ((newCaller text voiceId opts)\<lparr>c_pc := AwaitS3\<rparr>) s))"
proof -
  let ?k = "generateCacheKey text voiceId opts"
  obtain name where head: "s3Head (snd s) (bucketName (snd s)) (s3ObjectKey ?k) = Inl name"
    using assms by (cases "s3Head (snd s) (bucketName (snd s)) (s3ObjectKey ?k)")
      (auto simp: allMiss_def)
  have miss: "fst (checkS3Cache ?k (fst s) (snd s)) = None"
    using head checkS3Cache_fault_is_miss by blast
  have resp: "pollyResponse text voiceId opts (pollyRequest text voiceId (snd (checkS3Cache ?k (fst s) (snd s))))
      = pollyResponse text voiceId opts (snd s)"
    by (rule pollyResponse_cong) simp
  have frame: "mp3Files (pollyRequest text voiceId w) = mp3Files w"
    "s3Head (pollyRequest text voiceId w) = s3Head w" for w
    by (simp_all add: pollyRequest_def)
  show ?thesis
    using assms miss resp
    by (simp add: allMiss_def stepCaller_def newCaller_def Let_def frame)
qed

lemma answers_AwaitPolly:
  assumes "pollyResponse text voiceId opts (snd s) = Inr buf"
  shows "fst (stepCaller ((newCaller text voiceId opts)\<lparr>c_pc := AwaitPolly\<rparr>) s)
           = (newCaller text voiceId opts)
               \<lparr>c_pc := Finished (Inr \<lparr>audioBuffer = buf, source = ''generated'',
                     cacheKey = generateCacheKey text voiceId opts, fromCache = False\<rparr>)\<rparr>
       \<and> pollyResponse text voiceId opts
           (snd (snd (stepCaller ((newCaller text voiceId opts)\<lparr>c_pc := AwaitPolly\<rparr>) s))) = Inr buf"
proof -
  have "pollyResponse text voiceId opts
           (snd (storeInAllCaches (generateCacheKey text voiceId opts) buf s))
      = pollyResponse text voiceId opts (snd s)"
    by (rule pollyResponse_cong) simp
  then show ?thesis
    using assms by (simp add: stepCaller_def newCaller_def Let_def)
qed

lemma lockstep_callers_all_generate:
  assumes miss: "allMiss (generateCacheKey text voiceId opts) text voiceId opts buf s0"
  shows "callers (run (lockstep n) \<lparr>callers = replicate n (newCaller text voiceId opts), shared = s0\<rparr>)
           = replicate n ((newCaller text voiceId opts)
               \<lparr>c_pc := Finished (Inr \<lparr>audioBuffer = buf, source = ''generated'',
                     cacheKey = generateCacheKey text voiceId opts, fromCache = False\<rparr>)\<rparr>)
       \<and> length (pollyLog (snd (shared
             (run (lockstep n) \<lparr>callers = replicate n (newCaller text voiceId opts), shared = s0\<rparr>))))
           = length (pollyLog (snd s0)) + n"
proof -
  let ?k = "generateCacheKey text voiceId opts"
  let ?p = "newCaller text voiceId opts"
  let ?P = "allMiss ?k text voiceId opts buf"
  let ?fin = "?p\<lparr>c_pc := Finished (Inr \<lparr>audioBuffer = buf, source = ''generated'',
                     cacheKey = ?k, fromCache = False\<rparr>)\<rparr>"
  let ?cfg = "\<lparr>callers = replicate n ?p, shared = s0\<rparr>"
  obtain s1 where 1: "run [0..<n] ?cfg = \<lparr>callers = replicate n (?p\<lparr>c_pc := AwaitDisk None\<rparr>), shared = s1\<rparr>"
      and P1: "?P s1"
    using phase [of ?P ?p "?p\<lparr>c_pc := AwaitDisk None\<rparr>" s0 n] allMiss_Start miss by blast
  obtain s2 where 2: "run [0..<n] \<lparr>callers = replicate n (?p\<lparr>c_pc := AwaitDisk None\<rparr>), shared = s1\<rparr>
        = \<lparr>callers = replicate n (?p\<lparr>c_pc := AwaitS3\<rparr>), shared = s2\<rparr>"
      and P2: "?P s2"
    using phase [of ?P "?p\<lparr>c_pc := AwaitDisk None\<rparr>" "?p\<lparr>c_pc := AwaitS3\<rparr>" s1 n]
      allMiss_AwaitDisk P1 by blast
  obtain s3 where 3: "run [0..<n] \<lparr>callers = replicate n (?p\<lparr>c_pc := AwaitS3\<rparr>), shared = s2\<rparr>
        = \<lparr>callers = replicate n (?p\<lparr>c_pc := AwaitPolly\<rparr>), shared = s3\<rparr>"
      and P3: "?P s3"
    using phase [of ?P "?p\<lparr>c_pc := AwaitS3\<rparr>" "?p\<lparr>c_pc := AwaitPolly\<rparr>" s2 n]
      allMiss_AwaitS3 P2 by blast
  have R3: "pollyResponse text voiceId opts (snd s3) = Inr buf"
    using P3 by (simp add: allMiss_def)
  obtain s4 where 4: "run [0..<n] \<lparr>callers = replicate n (?p\<lparr>c_pc := AwaitPolly\<rparr>), shared = s3\<rparr>
        = \<lparr>callers = replicate n ?fin, shared = s4\<rparr>"
    using phase [of "\<lambda>s. pollyResponse text voiceId opts (snd s) = Inr buf"
        "?p\<lparr>c_pc := AwaitPolly\<rparr>" ?fin s3 n]
      answers_AwaitPolly R3 by blast
  have fin: "run (lockstep n) ?cfg = \<lparr>callers = replicate n ?fin, shared = s4\<rparr>"
    by (simp add: lockstep_def run_append 1 2 3 4)
  have none: "filter invoked (callers ?cfg) = []"
    by (simp add: filter_empty_conv invoked_def newCaller_def)
  have all: "filter invoked (replicate n ?fin) = replicate n ?fin"
    by (simp add: filter_id_conv invoked_def)
  have "length (pollyLog (snd (shared (run (lockstep n) ?cfg)))) + length (filter invoked (callers ?cfg))
     = length (pollyLog (snd (shared ?cfg))) + length (filter invoked (callers (run (lockstep n) ?cfg)))"
    by (rule run_invoked)
  then have "length (pollyLog (snd (shared (run (lockstep n) ?cfg)))) = length (pollyLog (snd s0)) + n"
    unfolding none by (simp add: fin all)
  then show ?thesis by (simp add: fin)
qed

text \<open>
  C1, amended. \<open>getAudioWithCache\<close> keeps no record of generations in flight, and a call
  never waits for another call's generation: every call that misses in all tiers
  invokes \<open>generatePollyAudio\<close> itself, once. For any number of calls, with any
  arguments, resumed in any order, the number of requests sent to Polly is the number of
  calls that have reached generation; so when all \<open>N\<close> calls miss in all tiers, the
  generator is invoked \<open>N\<close> times. A call that returns generated audio returns what
  Polly answers to its own request. In particular, for every \<open>N\<close>, when \<open>N\<close> calls with
  the same arguments run in step from a state in which every tier misses, the generator
  is invoked \<open>N\<close> times and every call returns generated audio.
\<close>

theorem every_missing_caller_generates:
  "((\<forall>p \<in> set (callers cfg). c_pc p = Start) \<longrightarrow>
      length (pollyLog (snd (shared (run sched cfg))))
        = length (pollyLog (snd (shared cfg))) + length (filter invoked (callers (run sched cfg)))
      \<and> ((\<forall>p \<in> set (callers (run sched cfg)). invoked p) \<longrightarrow>
            length (pollyLog (snd (shared (run sched cfg))))
              = length (pollyLog (snd (shared cfg))) + length (callers cfg))
      \<and> (\<forall>p \<in> set (callers (run sched cfg)). ownAudio (snd (shared cfg)) p))
   \<and> (allMiss (generateCacheKey text voiceId opts) text voiceId opts buf s0 \<longrightarrow>
        callers (run (lockstep n) \<lparr>callers = replicate n (newCaller text voiceId opts), shared = s0\<rparr>)
          = replicate n ((newCaller text voiceId opts)
               \<lparr>c_pc := Finished (Inr \<lparr>audioBuffer = buf, source = ''generated'',
                     cacheKey = generateCacheKey text voiceId opts, fromCache = False\<rparr>)\<rparr>)
        \<and> length (pollyLog (snd (shared
             (run (lockstep n) \<lparr>callers = replicate n (newCaller text voiceId opts), shared = s0\<rparr>))))
           = length (pollyLog (snd s0)) + n)"
  (is "(?S \<longrightarrow> ?G) \<and> (?M \<longrightarrow> ?L)")
proof
  show "?S \<longrightarrow> ?G"
  proof
    assume ?S
    then show ?G by (rule generations_counted)
  qed
next
  show "?M \<longrightarrow> ?L"
  proof
    assume ?M
    then show ?L by (rule lockstep_callers_all_generate)
  qed
qed

theorem every_missing_caller_generates_witness:
  "map c_pc (callers twoCallers) = [Start, Start]
   \<and> map invoked (callers (run [0, 0, 1, 1, 1, 0, 0, 1] twoCallers)) = [True, True]
   \<and> length (pollyLog (snd (shared (run [0, 0, 1, 1, 1, 0, 0, 1] twoCallers)))) = 2
   \<and> allMiss (generateCacheKey ''Emergency alert'' ''Joanna'' noOptions)
         ''Emergency alert'' ''Joanna'' noOptions [1, 2, 3] (newCache, quietWorld)
   \<and> map c_pc (callers (run (lockstep 3)
         \<lparr>callers = replicate 3 (newCaller ''Emergency alert'' ''Joanna'' noOptions),
           shared = (newCache, quietWorld)\<rparr>))
       = replicate 3 (Finished (Inr \<lparr>audioBuffer = [1, 2, 3], source = ''generated'',
                  cacheKey = generateCacheKey ''Emergency alert'' ''Joanna'' noOptions, fromCache = False\<rparr>))
   \<and> length (pollyLog (snd (shared (run (lockstep 3)
         \<lparr>callers = replicate 3 (newCaller ''Emergency alert'' ''Joanna'' noOptions),
           shared = (newCache, quietWorld)\<rparr>)))) = 3"
proof -
  have pcs: "map c_pc (callers twoCallers) = [Start, Start]"
    by (simp add: twoCallers_def newCaller_def)
  have start: "\<forall>p \<in> set (callers twoCallers). c_pc p = Start"
    by (simp add: twoCallers_def newCaller_def)
  have inv: "map invoked (callers (run [0, 0, 1, 1, 1, 0, 0, 1] twoCallers)) = [True, True]"
    by (simp add: step_defs eval_defs invoked_def)
  have fin: "\<forall>p \<in> set (callers (run [0, 0, 1, 1, 1, 0, 0, 1] twoCallers)). invoked p"
    by (simp add: step_defs eval_defs invoked_def)
  have init: "pollyLog (snd (shared twoCallers)) = []" "length (callers twoCallers) = 2"
    by (simp_all add: twoCallers_def quietWorld_def)
  have miss: "allMiss (generateCacheKey ''Emergency alert'' ''Joanna'' noOptions)
         ''Emergency alert'' ''Joanna'' noOptions [1, 2, 3] (newCache, quietWorld)"
    by (simp add: allMiss_def eval_defs)
  have log0: "pollyLog (snd (newCache, quietWorld)) = []"
    by (simp add: quietWorld_def)
  note general = every_missing_caller_generates
      [of twoCallers "[0, 0, 1, 1, 1, 0, 0, 1]", THEN conjunct1]
  note instep = every_missing_caller_generates
      [of _ _ "''Emergency alert''" "''Joanna''" noOptions "[1, 2, 3]" "(newCache, quietWorld)" 3,
       THEN conjunct2]
  have two: "length (pollyLog (snd (shared (run [0, 0, 1, 1, 1, 0, 0, 1] twoCallers)))) = 2"
    using general start fin init by simp
  have three: "map c_pc (callers (run (lockstep 3)
         \<lparr>callers = replicate 3 (newCaller ''Emergency alert'' ''Joanna'' noOptions),
           shared = (newCache, quietWorld)\<rparr>))
       = replicate 3 (Finished (Inr \<lparr>audioBuffer = [1, 2, 3], source = ''generated'',
                  cacheKey = generateCacheKey ''Emergency alert'' ''Joanna'' noOptions, fromCache = False\<rparr>))"
    "length (pollyLog (snd (shared (run (lockstep 3)
         \<lparr>callers = replicate 3 (newCaller ''Emergency alert'' ''Joanna'' noOptions),
           shared = (newCache, quietWorld)\<rparr>)))) = 3"
    using instep miss log0 by simp_all
  from pcs inv two miss three show ?thesis by (intro conjI)
qed

text \<open>Calls made one after the other generate once: the second is served from memory.\<close>

lemma sequential_callers_generate_once:
  "map c_pc (callers (run [0, 0, 0, 0, 1, 1, 1, 1] twoCallers))
     = [Finished (Inr \<lparr>audioBuffer = [1, 2, 3], source = ''generated'',
                cacheKey = generateCacheKey ''Emergency alert'' ''Joanna'' noOptions, fromCache = False\<rparr>),
        Finished (Inr \<lparr>audioBuffer = [1, 2, 3], source = ''memory'',
                cacheKey = generateCacheKey ''Emergency alert'' ''Joanna'' noOptions, fromCache = True\<rparr>)]
   \<and> pollyLog (snd (shared (run [0, 0, 0, 0, 1, 1, 1, 1] twoCallers)))
     = [(''Emergency alert'', ''Joanna'')]"
  by (simp add: step_defs eval_defs)


lemma run_alone:
  "run [0, 0, 0, 0] \<lparr> callers = [newCaller text voiceId opts], shared = (c, w) \<rparr>
     = \<lparr> callers = [(newCaller text voiceId opts)
                       \<lparr>c_pc := Finished (fst (getAudioWithCache text voiceId opts (c, w)))\<rparr>],
         shared = snd (getAudioWithCache text voiceId opts (c, w)) \<rparr>"
proof -
  let ?k = "generateCacheKey text voiceId opts"
  let ?mr = "checkMemoryCache ?k (clock w) (c\<lparr>totalRequests := totalRequests c + 1\<rparr>)"
  let ?dr = "checkDiskCache ?k (snd ?mr) w"
  let ?sr = "checkS3Cache ?k (snd ?mr) (snd ?dr)"
  show ?thesis
  proof (cases "fst ?mr")
    case (Some buf)
    then show ?thesis
      by (simp add: run_def step_def stepCaller_def newCaller_def getAudioWithCache_def Let_def)
  next
    case mem: None
    show ?thesis
    proof (cases "fst ?dr")
      case (Some buf)
      with mem show ?thesis
        by (simp add: run_def step_def stepCaller_def newCaller_def getAudioWithCache_def Let_def)
    next
      case disk: None
      show ?thesis
      proof (cases "s3Cache c")
        case False
        with mem disk show ?thesis
          by (simp add: run_def step_def stepCaller_def newCaller_def getAudioWithCache_def
              generatePollyAudio_def Let_def split: sum.splits)
      next
        case True
        show ?thesis
        proof (cases "fst ?sr")
          case (Some buf)
          with mem disk True show ?thesis
            by (simp add: run_def step_def stepCaller_def newCaller_def getAudioWithCache_def Let_def)
        next
          case None
          with mem disk True show ?thesis
            by (simp add: run_def step_def stepCaller_def newCaller_def getAudioWithCache_def
                generatePollyAudio_def Let_def split: sum.splits)
        qed
      qed
    qed
  qed
qed

end
